theory Spec2Isabelle
  imports Complex_Main
begin

section \<open>JavaScript values and thrown errors\<close>

text \<open>
  The values that travel through \<^verbatim>\<open>backend/src/config/zcash.js\<close> are parsed JSON:
  the module never computes on them, it reads \<^verbatim>\<open>operations[0]\<close> and
  \<^verbatim>\<open>status.status\<close> and hands everything else through. An object is its list of
  properties (keys distinct, as \<^verbatim>\<open>JSON.parse\<close> leaves them).
\<close>

datatype jsval =
    JUndefined
  | JNull
  | JBool bool
  | JNum rat
  | JStr string
  | JArr "jsval list"
  | JObj "(string \<times> jsval) list"

text \<open>
  Every \<^verbatim>\<open>throw\<close> of the module is \<^verbatim>\<open>new Error(message)\<close>. The engine itself
  throws a \<^verbatim>\<open>TypeError\<close> when a property is read on \<^verbatim>\<open>undefined\<close> or
  \<^verbatim>\<open>null\<close>; it is kept as the value read on and the property name, since the wording
  of its message belongs to the engine.
\<close>

datatype js_error =
    Error string
  | TypeError jsval string

text \<open>\<^verbatim>\<open>operations[0]\<close>: element 0 of an array, \<^verbatim>\<open>undefined\<close> when there is none.\<close>

fun js_first :: "jsval \<Rightarrow> js_error + jsval" where
  "js_first JUndefined = Inl (TypeError JUndefined ''0'')"
| "js_first JNull = Inl (TypeError JNull ''0'')"
| "js_first (JArr []) = Inr JUndefined"
| "js_first (JArr (x # xs)) = Inr x"
| "js_first (JStr []) = Inr JUndefined"
| "js_first (JStr (c # cs)) = Inr (JStr [c])"
| "js_first (JObj kvs) = Inr (case map_of kvs ''0'' of None \<Rightarrow> JUndefined | Some v \<Rightarrow> v)"
| "js_first (JBool b) = Inr JUndefined"
| "js_first (JNum n) = Inr JUndefined"

text \<open>\<^verbatim>\<open>status.status\<close>: only an object can carry the property.\<close>

fun js_status :: "jsval \<Rightarrow> js_error + jsval" where
  "js_status JUndefined = Inl (TypeError JUndefined ''status'')"
| "js_status JNull = Inl (TypeError JNull ''status'')"
| "js_status (JObj kvs) = Inr (case map_of kvs ''status'' of None \<Rightarrow> JUndefined | Some v \<Rightarrow> v)"
| "js_status (JArr xs) = Inr JUndefined"
| "js_status (JStr s) = Inr JUndefined"
| "js_status (JBool b) = Inr JUndefined"
| "js_status (JNum n) = Inr JUndefined"

text \<open>A non-negative integer inside a template literal prints in decimal.\<close>

definition digit_char :: "nat \<Rightarrow> char" where
  "digit_char d = ''0123456789'' ! d"

function string_of_nat :: "nat \<Rightarrow> string" where
  "string_of_nat n =
     (if n < 10 then [digit_char n]
      else string_of_nat (n div 10) @ [digit_char (n mod 10)])"
  by pat_completeness auto
termination
  by (relation "measure (\<lambda>n. n)") auto

declare string_of_nat.simps [simp del]

section \<open>The node behind axios\<close>

text \<open>
  \<^verbatim>\<open>axios.post\<close> either resolves with a response of status 2xx, whose body is the
  JSON-RPC reply \<^verbatim>\<open>{result, error, id}\<close>, or rejects with an error object: one that
  carries \<^verbatim>\<open>response\<close> (the node answered with another status) or one that does not
  (nothing came back: refused connection, timeout after 30000 ms). The request is the
  posted body (its \<^verbatim>\<open>method\<close> is the field \<open>rpc_method\<close> here); its
  \<^verbatim>\<open>id: Date.now()\<close> is never read back and is left out.
\<close>

record rpc_request =
  jsonrpc :: string
  rpc_method :: string
  params :: "jsval list"

record rpc_error =
  code :: int
  message :: string

record rpc_reply =
  result :: jsval
  error :: "rpc_error option"

record http_response =
  status :: nat
  statusText :: string

datatype http_outcome =
    Resolved rpc_reply
  | Rejected "http_response option" string

text \<open>
  What a \<^verbatim>\<open>catch\<close> clause of the module can hold: the rejection of axios, or the
  \<^verbatim>\<open>Error\<close> thrown inside the \<^verbatim>\<open>try\<close>. The handler reads
  \<^verbatim>\<open>error.response\<close> and \<^verbatim>\<open>error.message\<close> only.
\<close>

record caught =
  response :: "http_response option"
  message_of :: string

text \<open>
  The world outside is the node and the clock. The node answers the \<open>n\<close>-th request
  of a run as a function of \<open>n\<close> and of the request; the run is recorded as the list of
  its effects, oldest first.
\<close>

datatype effect =
    Post rpc_request
  | Sleep nat

type_synonym node = "nat \<Rightarrow> rpc_request \<Rightarrow> http_outcome"

definition posts :: "effect list \<Rightarrow> nat" where
  "posts tr = length (filter (\<lambda>e. case e of Post r \<Rightarrow> True | Sleep d \<Rightarrow> False) tr)"

definition sleeps :: "effect list \<Rightarrow> nat list" where
  "sleeps tr = concat (map (\<lambda>e. case e of Post r \<Rightarrow> [] | Sleep d \<Rightarrow> [d]) tr)"

definition axios_post :: "node \<Rightarrow> rpc_request \<Rightarrow> effect list \<Rightarrow> http_outcome \<times> effect list" where
  "axios_post nd req tr = (nd (posts tr) req, tr @ [Post req])"

section \<open>backend/src/config/zcash.js\<close>

text \<open>
  The \<^verbatim>\<open>try\<close> block of \<^verbatim>\<open>zcashRpc\<close> once \<^verbatim>\<open>axios.post\<close> has settled: a
  rejection leaves the block as it is; a reply with an \<^verbatim>\<open>error\<close> makes the block
  throw \<^verbatim>\<open>new Error(`Zcash RPC Error: ...`)\<close>, an object without \<^verbatim>\<open>response\<close>;
  otherwise the block returns \<^verbatim>\<open>response.data.result\<close>.
\<close>

definition zcashRpc_try :: "http_outcome \<Rightarrow> caught + jsval" where
  "zcashRpc_try out =
     (case out of
        Rejected resp msg \<Rightarrow> Inl \<lparr>response = resp, message_of = msg\<rparr>
      | Resolved reply \<Rightarrow>
          (case error reply of
             Some e \<Rightarrow> Inl \<lparr>response = None, message_of = ''Zcash RPC Error: '' @ message e\<rparr>
           | None \<Rightarrow> Inr (result reply)))"

text \<open>The \<^verbatim>\<open>catch\<close> handler: whatever left the \<^verbatim>\<open>try\<close> block is rethrown.\<close>

definition zcashRpc_catch :: "caught \<Rightarrow> js_error" where
  "zcashRpc_catch err =
     (case response err of
        Some r \<Rightarrow>
          Error (''Zcash RPC HTTP Error: '' @ string_of_nat (status r) @ '' - '' @ statusText r)
      | None \<Rightarrow> Error (''Zcash RPC Connection Error: '' @ message_of err))"

text \<open>What a call of \<^verbatim>\<open>zcashRpc\<close> gives its caller once \<^verbatim>\<open>axios.post\<close> has settled.\<close>

definition rpc_value :: "http_outcome \<Rightarrow> js_error + jsval" where
  "rpc_value out = (case zcashRpc_try out of Inl err \<Rightarrow> Inl (zcashRpc_catch err) | Inr v \<Rightarrow> Inr v)"

definition zcashRpc :: "node \<Rightarrow> string \<Rightarrow> jsval list \<Rightarrow> effect list \<Rightarrow> (js_error + jsval) \<times> effect list" where
  "zcashRpc nd m ps tr =
     (case axios_post nd \<lparr>jsonrpc = ''1.0'', rpc_method = m, params = ps\<rparr> tr of
        (out, tr') \<Rightarrow> (rpc_value out, tr'))"

text \<open>A parameter left \<^verbatim>\<open>undefined\<close> takes its default.\<close>

definition or_default :: "jsval \<Rightarrow> jsval \<Rightarrow> jsval" where
  "or_default v d = (if v = JUndefined then d else v)"

definition generateZAddress :: "node \<Rightarrow> effect list \<Rightarrow> (js_error + jsval) \<times> effect list" where
  "generateZAddress nd tr = zcashRpc nd ''z_getnewaddress'' [] tr"

definition getReceivedByAddress :: "node \<Rightarrow> jsval \<Rightarrow> jsval \<Rightarrow> effect list \<Rightarrow> (js_error + jsval) \<times> effect list" where
  "getReceivedByAddress nd address minconf tr =
     zcashRpc nd ''z_listreceivedbyaddress'' [or_default minconf (JNum 0), JArr [address]] tr"

definition sendMany :: "node \<Rightarrow> jsval \<Rightarrow> jsval \<Rightarrow> jsval \<Rightarrow> effect list \<Rightarrow> (js_error + jsval) \<times> effect list" where
  "sendMany nd recipients minconf fee tr =
     zcashRpc nd ''z_sendmany''
       [JStr [], recipients, or_default minconf (JNum 1), or_default fee (JNum (1 / 10000))] tr"

definition getOperationStatus :: "node \<Rightarrow> string \<Rightarrow> effect list \<Rightarrow> (js_error + jsval) \<times> effect list" where
  "getOperationStatus nd opid tr =
     (case zcashRpc nd ''z_getoperationstatus'' [JArr [JStr opid]] tr of
        (Inl e, tr') \<Rightarrow> (Inl e, tr')
      | (Inr operations, tr') \<Rightarrow> (js_first operations, tr'))"

definition getBlockchainInfo :: "node \<Rightarrow> effect list \<Rightarrow> (js_error + jsval) \<times> effect list" where
  "getBlockchainInfo nd tr = zcashRpc nd ''getblockchaininfo'' [] tr"

definition validateAddress :: "node \<Rightarrow> jsval \<Rightarrow> effect list \<Rightarrow> (js_error + jsval) \<times> effect list" where
  "validateAddress nd address tr = zcashRpc nd ''validateaddress'' [address] tr"

text \<open>
  The \<^verbatim>\<open>for\<close> loop of \<^verbatim>\<open>waitForOperation\<close>, from the value \<open>i\<close> of its counter.
  A status that is neither \<^verbatim>\<open>'executing'\<close> nor \<^verbatim>\<open>'queued'\<close> is returned; otherwise
  the loop waits \<open>interval\<close> ms and counts on. Leaving the loop throws.
\<close>

definition in_progress :: "jsval \<Rightarrow> bool" where
  "in_progress s = (s = JStr ''executing'' \<or> s = JStr ''queued'')"

definition timed_out :: "string \<Rightarrow> nat \<Rightarrow> js_error" where
  "timed_out opid maxAttempts =
     Error (''Operation '' @ opid @ '' timed out after '' @ string_of_nat maxAttempts @ '' attempts'')"

function waitForOperation_from ::
  "node \<Rightarrow> string \<Rightarrow> nat \<Rightarrow> nat \<Rightarrow> nat \<Rightarrow> effect list \<Rightarrow> (js_error + jsval) \<times> effect list" where
  "waitForOperation_from nd opid maxAttempts interval i tr =
     (if i < maxAttempts then
        (case getOperationStatus nd opid tr of
           (Inl e, tr') \<Rightarrow> (Inl e, tr')
         | (Inr st, tr') \<Rightarrow>
             (case js_status st of
                Inl e \<Rightarrow> (Inl e, tr')
              | Inr s \<Rightarrow>
                  if \<not> in_progress s then (Inr st, tr')
                  else waitForOperation_from nd opid maxAttempts interval (Suc i) (tr' @ [Sleep interval])))
      else
        (Inl (timed_out opid maxAttempts), tr))"
  by pat_completeness auto
termination
  by (relation "measure (\<lambda>(nd, opid, maxAttempts, interval, i, tr). maxAttempts - i)") auto

declare waitForOperation_from.simps [simp del]

text \<open>
  \<^verbatim>\<open>waitForOperation(opid, maxAttempts = 50, interval = 2500)\<close>: an argument left out
  is \<open>None\<close> and takes its default.
\<close>

definition default_to :: "'a \<Rightarrow> 'a option \<Rightarrow> 'a" where
  "default_to d arg = (case arg of None \<Rightarrow> d | Some n \<Rightarrow> n)"

definition waitForOperation ::
  "node \<Rightarrow> string \<Rightarrow> nat option \<Rightarrow> nat option \<Rightarrow> effect list \<Rightarrow> (js_error + jsval) \<times> effect list" where
  "waitForOperation nd opid maxAttempts interval tr =
     waitForOperation_from nd opid (default_to 50 maxAttempts) (default_to 2500 interval) 0 tr"

text \<open>
  Names for what the loop meets: the request \<^verbatim>\<open>getOperationStatus\<close> posts, the value
  it returns when that request is the \<open>n\<close>-th of the run, whether such a value keeps the
  loop going, what the loop makes of a value that does not, and the effects of \<open>k\<close>
  unfinished attempts.
\<close>

definition status_query :: "string \<Rightarrow> rpc_request" where
  "status_query opid = \<lparr>jsonrpc = ''1.0'', rpc_method = ''z_getoperationstatus'', params = [JArr [JStr opid]]\<rparr>"

definition polled :: "node \<Rightarrow> string \<Rightarrow> nat \<Rightarrow> js_error + jsval" where
  "polled nd opid n =
     (case rpc_value (nd n (status_query opid)) of Inl e \<Rightarrow> Inl e | Inr operations \<Rightarrow> js_first operations)"

definition running :: "js_error + jsval \<Rightarrow> bool" where
  "running ob =
     (case ob of Inl e \<Rightarrow> False
      | Inr st \<Rightarrow> (case js_status st of Inl e \<Rightarrow> False | Inr s \<Rightarrow> in_progress s))"

definition polling :: "string \<Rightarrow> nat \<Rightarrow> nat \<Rightarrow> effect list" where
  "polling opid interval k = concat (replicate k [Post (status_query opid), Sleep interval])"

definition settle :: "js_error + jsval \<Rightarrow> js_error + jsval" where
  "settle ob =
     (case ob of Inl e \<Rightarrow> Inl e
      | Inr st \<Rightarrow> (case js_status st of Inl e \<Rightarrow> Inl e | Inr s \<Rightarrow> Inr st))"

text \<open>
  What the node reports: the operation object that stands first in its answer to the
  \<open>n\<close>-th request, a status query for \<open>opid\<close>, with the value of its \<^verbatim>\<open>status\<close>
  property. It reads the node's answer only and takes no part in the functions above.
\<close>

definition reported :: "node \<Rightarrow> string \<Rightarrow> nat \<Rightarrow> (jsval \<times> jsval) option" where
  "reported nd opid n =
     (case nd n (status_query opid) of
        Rejected resp msg \<Rightarrow> None
      | Resolved reply \<Rightarrow>
          (case error reply of
             Some e \<Rightarrow> None
           | None \<Rightarrow>
               (case result reply of
                  JArr (JObj kvs # rest) \<Rightarrow>
                    (case map_of kvs ''status'' of None \<Rightarrow> None | Some s \<Rightarrow> Some (JObj kvs, s))
                | _ \<Rightarrow> None)))"

section \<open>backend/dist/utils/retry.cjs\<close>

text \<open>
  An object that \<^verbatim>\<open>fn\<close> rejects with: \<^verbatim>\<open>retryWithBackoff\<close> reads its \<^verbatim>\<open>code\<close>
  only (the field \<open>error_code\<close>, \<open>None\<close> when the value has none or one that is not a
  string).
\<close>

record sdk_error =
  error_code :: "string option"
  error_message :: string

text \<open>
  A promise can reject with any value. On \<^verbatim>\<open>undefined\<close> and \<^verbatim>\<open>null\<close> the read
  \<^verbatim>\<open>error.code\<close> throws a \<^verbatim>\<open>TypeError\<close>; on every other value it yields the code or
  \<^verbatim>\<open>undefined\<close>.
\<close>

datatype thrown =
    Undefined
  | Null
  | Obj sdk_error

text \<open>
  \<^verbatim>\<open>baseDelay\<close> and the delay are JavaScript numbers, that is doubles: a finite one
  is the rational it stands for. \<^verbatim>\<open>Math.pow(2, attempt)\<close> is exact up to
  \<open>2 ^ 1023\<close> and \<^verbatim>\<open>Infinity\<close> from \<open>2 ^ 1024\<close> on; the product of a double with a
  power of two keeps the digits of the double, so it is exact unless it leaves the
  range, and then it is an infinity; zero times \<^verbatim>\<open>Infinity\<close> is \<^verbatim>\<open>NaN\<close>.
  \<open>times_pow2\<close> is \<^verbatim>\<open>baseDelay * Math.pow(2, attempt)\<close>.
\<close>

datatype js_number =
    Num rat
  | PosInfinity
  | NegInfinity
  | NaN

definition times_pow2 :: "js_number \<Rightarrow> nat \<Rightarrow> js_number" where
  "times_pow2 baseDelay attempt =
     (case baseDelay of
        NaN \<Rightarrow> NaN
      | PosInfinity \<Rightarrow> PosInfinity
      | NegInfinity \<Rightarrow> NegInfinity
      | Num b \<Rightarrow>
          if 1024 \<le> attempt then (if b = 0 then NaN else if 0 < b then PosInfinity else NegInfinity)
          else if \<bar>b * 2 ^ attempt\<bar> < 2 ^ 1024 then Num (b * 2 ^ attempt)
          else if 0 < b then PosInfinity else NegInfinity)"

text \<open>
  \<^verbatim>\<open>fn\<close> is a function with effects: it takes the state of its world and returns its
  outcome with the new state. A run of \<^verbatim>\<open>retryWithBackoff\<close> is recorded as the list
  of its invocations of \<^verbatim>\<open>fn\<close>, each with its outcome, and of its timers, each with
  the delay handed to \<^verbatim>\<open>setTimeout\<close>.
\<close>

datatype 'a retry_effect =
    Invoked "thrown + 'a"
  | Delay js_number

text \<open>
  What \<^verbatim>\<open>retryWithBackoff\<close> throws: a value it caught (\<^verbatim>\<open>throw error\<close>,
  \<^verbatim>\<open>throw lastError\<close>), or the engine's error raised inside its \<^verbatim>\<open>catch\<close> block.
\<close>

datatype retry_failure =
    Rethrown thrown
  | Raised js_error

text \<open>The read \<^verbatim>\<open>error.code\<close>.\<close>

definition code_of :: "thrown \<Rightarrow> js_error + string option" where
  "code_of err =
     (case err of
        Undefined \<Rightarrow> Inl (TypeError JUndefined ''code'')
      | Null \<Rightarrow> Inl (TypeError JNull ''code'')
      | Obj e \<Rightarrow> Inr (error_code e))"

text \<open>
  The \<^verbatim>\<open>for\<close> loop from the value \<open>attempt\<close> of its counter, with the
  \<^verbatim>\<open>lastError\<close> held so far. On the last attempt the loop breaks and
  \<^verbatim>\<open>throw lastError\<close> throws the value just stored; before that the codes of the
  comment \<^verbatim>\<open>Don't retry on certain error types\<close> are tested.
\<close>

function retryWithBackoff_from ::
  "('s \<Rightarrow> (thrown + 'a) \<times> 's) \<Rightarrow> int \<Rightarrow> js_number \<Rightarrow> nat \<Rightarrow> thrown \<Rightarrow> 's \<Rightarrow>
   'a retry_effect list \<Rightarrow> (retry_failure + 'a) \<times> 's \<times> 'a retry_effect list" where
  "retryWithBackoff_from fn maxRetries baseDelay attempt lastError s tr =
     (if int attempt \<le> maxRetries then
        (case fn s of
           (Inr v, s') \<Rightarrow> (Inr v, s', tr @ [Invoked (Inr v)])
         | (Inl err, s') \<Rightarrow>
             if int attempt = maxRetries then (Inl (Rethrown err), s', tr @ [Invoked (Inl err)])
             else
               (case code_of err of
                  Inl e \<Rightarrow> (Inl (Raised e), s', tr @ [Invoked (Inl err)])
                | Inr c \<Rightarrow>
                    if c = Some ''VALIDATION_ERROR'' \<or> c = Some ''NOT_FOUND'' \<or> c = Some ''UNAUTHORIZED''
                    then (Inl (Rethrown err), s', tr @ [Invoked (Inl err)])
                    else retryWithBackoff_from fn maxRetries baseDelay (Suc attempt) err s'
                           (tr @ [Invoked (Inl err), Delay (times_pow2 baseDelay attempt)])))
      else (Inl (Rethrown lastError), s, tr))"
  by pat_completeness auto
termination
  by (relation "measure (\<lambda>(fn, maxRetries, baseDelay, attempt, lastError, s, tr).
        nat (maxRetries + 1 - int attempt))") auto

declare retryWithBackoff_from.simps [simp del]

text \<open>\<^verbatim>\<open>retryWithBackoff(fn, maxRetries = 3, baseDelay = 1000)\<close>.\<close>

definition retryWithBackoff ::
  "('s \<Rightarrow> (thrown + 'a) \<times> 's) \<Rightarrow> int option \<Rightarrow> js_number option \<Rightarrow> 's \<Rightarrow>
   (retry_failure + 'a) \<times> 's \<times> 'a retry_effect list" where
  "retryWithBackoff fn maxRetries baseDelay s =
     retryWithBackoff_from fn (default_to 3 maxRetries) (default_to (Num 1000) baseDelay) 0 Undefined s []"

text \<open>
  Names for the shape of a run: the effects of failed attempts \<open>k, k + 1, ...\<close> that are
  retried (each an invocation that rejects with an object, then a timer), the objects
  whose code lets the loop go on, what the caller gets from the last outcome (\<open>final\<close>
  on the last attempt), and the counts read off a run.
\<close>

fun backoff :: "js_number \<Rightarrow> nat \<Rightarrow> sdk_error list \<Rightarrow> 'a retry_effect list" where
  "backoff baseDelay k [] = []"
| "backoff baseDelay k (e # es) =
     Invoked (Inl (Obj e)) # Delay (times_pow2 baseDelay k) # backoff baseDelay (Suc k) es"

definition retried :: "sdk_error \<Rightarrow> bool" where
  "retried e =
     (error_code e \<noteq> Some ''VALIDATION_ERROR'' \<and> error_code e \<noteq> Some ''NOT_FOUND''
      \<and> error_code e \<noteq> Some ''UNAUTHORIZED'')"

definition last_outcome :: "bool \<Rightarrow> thrown + 'a \<Rightarrow> retry_failure + 'a" where
  "last_outcome final x =
     (case x of
        Inr v \<Rightarrow> Inr v
      | Inl t \<Rightarrow>
          if final then Inl (Rethrown t)
          else (case code_of t of Inl e \<Rightarrow> Inl (Raised e) | Inr c \<Rightarrow> Inl (Rethrown t)))"

definition invocations :: "'a retry_effect list \<Rightarrow> nat" where
  "invocations tr = length (filter (\<lambda>ev. case ev of Invoked x \<Rightarrow> True | Delay d \<Rightarrow> False) tr)"

definition delays :: "'a retry_effect list \<Rightarrow> js_number list" where
  "delays tr = concat (map (\<lambda>ev. case ev of Invoked x \<Rightarrow> [] | Delay d \<Rightarrow> [d]) tr)"

section \<open>backend/schema.sql\<close>

text \<open>
  A \<^verbatim>\<open>DECIMAL(16,8)\<close> column holds a decimal of at most 16 digits, 8 of them after the
  point: here the integer number of hundred-millionths of a ZEC, below \<open>10 ^ 16\<close> in
  absolute value.
\<close>

type_synonym zec = int

definition decimal_16_8 :: "zec \<Rightarrow> bool" where
  "decimal_16_8 v = (\<bar>v\<bar> < 10 ^ 16)"

text \<open>
  The tables \<^verbatim>\<open>users\<close>, \<^verbatim>\<open>invoices\<close> and \<^verbatim>\<open>withdrawals\<close>. A field is the
  column of the same name under the alias the view gives its table (\<^verbatim>\<open>u.id\<close> is
  \<open>u_id\<close>, \<^verbatim>\<open>i.status\<close> is \<open>i_status\<close>, \<^verbatim>\<open>w.amount_zec\<close> is \<open>w_amount_zec\<close>); a
  column that may be \<^verbatim>\<open>NULL\<close> is an option. The columns \<^verbatim>\<open>created_at\<close>,
  \<^verbatim>\<open>updated_at\<close> and \<^verbatim>\<open>requested_at\<close>, which no constraint and no view reads, and the
  lengths of the \<^verbatim>\<open>VARCHAR\<close> columns are left out.
\<close>

record user_row =
  u_id :: string
  u_email :: "string option"
  u_name :: "string option"

record invoice_row =
  i_id :: string
  i_user_id :: string
  i_type :: string
  i_item_id :: "string option"
  i_amount_zec :: zec
  i_z_address :: string
  i_status :: string
  i_paid_txid :: "string option"
  i_paid_amount_zec :: "zec option"
  i_paid_at :: "nat option"
  i_expires_at :: "nat option"

record withdrawal_row =
  w_id :: string
  w_user_id :: string
  w_amount_zec :: zec
  w_fee_zec :: zec
  w_net_zec :: zec
  w_to_address :: string
  w_status :: string
  w_txid :: "string option"
  w_processed_at :: "nat option"

record database =
  users :: "user_row list"
  invoices :: "invoice_row list"
  withdrawals :: "withdrawal_row list"

text \<open>
  The \<^verbatim>\<open>CHECK\<close> constraints of a row, with the range of its decimals. A \<^verbatim>\<open>CHECK\<close>
  on a \<^verbatim>\<open>NULL\<close> passes. No constraint of either table relates two columns.
\<close>

definition invoices_check :: "invoice_row \<Rightarrow> bool" where
  "invoices_check i =
     ((i_type i = ''subscription'' \<or> i_type i = ''one_time'')
      \<and> decimal_16_8 (i_amount_zec i) \<and> i_amount_zec i > 0
      \<and> (i_status i = ''pending'' \<or> i_status i = ''paid'' \<or> i_status i = ''expired''
          \<or> i_status i = ''cancelled'')
      \<and> (case i_paid_amount_zec i of None \<Rightarrow> True | Some p \<Rightarrow> decimal_16_8 p \<and> p \<ge> 0))"

definition withdrawals_check :: "withdrawal_row \<Rightarrow> bool" where
  "withdrawals_check w =
     (decimal_16_8 (w_amount_zec w) \<and> w_amount_zec w > 0
      \<and> decimal_16_8 (w_fee_zec w) \<and> w_fee_zec w \<ge> 0
      \<and> decimal_16_8 (w_net_zec w) \<and> w_net_zec w > 0
      \<and> (w_status w = ''pending'' \<or> w_status w = ''processing'' \<or> w_status w = ''sent''
          \<or> w_status w = ''failed''))"

text \<open>
  \<^verbatim>\<open>INSERT\<close>: the row is stored when it passes the checks, its primary key is new, its
  user exists and, for an invoice, its \<^verbatim>\<open>z_address\<close> is not in use
  (\<^verbatim>\<open>UNIQUE\<close>); otherwise the statement fails.
\<close>

datatype store_error = ConstraintViolation

definition insert_invoice :: "database \<Rightarrow> invoice_row \<Rightarrow> store_error + database" where
  "insert_invoice db i =
     (if invoices_check i
         \<and> i_id i \<notin> set (map i_id (invoices db))
         \<and> i_user_id i \<in> set (map u_id (users db))
         \<and> i_z_address i \<notin> set (map i_z_address (invoices db))
      then Inr (db\<lparr>invoices := invoices db @ [i]\<rparr>)
      else Inl ConstraintViolation)"

definition insert_withdrawal :: "database \<Rightarrow> withdrawal_row \<Rightarrow> store_error + database" where
  "insert_withdrawal db w =
     (if withdrawals_check w
         \<and> w_id w \<notin> set (map w_id (withdrawals db))
         \<and> w_user_id w \<in> set (map u_id (users db))
      then Inr (db\<lparr>withdrawals := withdrawals db @ [w]\<rparr>)
      else Inl ConstraintViolation)"

text \<open>
  What the view \<^verbatim>\<open>user_balances\<close> is made of: \<^verbatim>\<open>LEFT JOIN\<close> keeps a left row
  with no match once, with \<^verbatim>\<open>NULL\<close>s on the right; \<^verbatim>\<open>SUM\<close> adds the values that
  are not \<^verbatim>\<open>NULL\<close> and is \<^verbatim>\<open>NULL\<close> when there are none; \<^verbatim>\<open>COUNT(col)\<close> counts
  them; \<^verbatim>\<open>COALESCE(v, d)\<close> replaces \<^verbatim>\<open>NULL\<close> by \<open>d\<close>.
\<close>

definition left_join :: "'a list \<Rightarrow> 'b list \<Rightarrow> ('a \<Rightarrow> 'b \<Rightarrow> bool) \<Rightarrow> ('a \<times> 'b option) list" where
  "left_join ls rs on =
     concat (map (\<lambda>l. case filter (on l) rs of
                         [] \<Rightarrow> [(l, None)]
                       | m # ms \<Rightarrow> map (\<lambda>r. (l, Some r)) (m # ms)) ls)"

definition sql_sum :: "zec option list \<Rightarrow> zec option" where
  "sql_sum vs = (case concat (map (\<lambda>v. case v of None \<Rightarrow> [] | Some x \<Rightarrow> [x]) vs) of
                   [] \<Rightarrow> None
                 | x # xs \<Rightarrow> Some (sum_list (x # xs)))"

definition sql_count :: "'a option list \<Rightarrow> nat" where
  "sql_count vs = length (filter (\<lambda>v. v \<noteq> None) vs)"

definition coalesce :: "'a option \<Rightarrow> 'a \<Rightarrow> 'a" where
  "coalesce v d = (case v of None \<Rightarrow> d | Some x \<Rightarrow> x)"

text \<open>A row of the view; its column \<^verbatim>\<open>id\<close> is the field \<open>id_col\<close>.\<close>

record user_balances_row =
  id_col :: string
  email :: "string option"
  name :: "string option"
  total_received_zec :: zec
  total_withdrawn_zec :: zec
  available_balance_zec :: zec
  total_invoices :: nat
  total_withdrawals :: nat

text \<open>
  The \<^verbatim>\<open>FROM\<close> clause: \<^verbatim>\<open>users u\<close> joined to the paid invoices of the user, and
  each row of that join joined again to the user's withdrawals that are sent or
  processing.
\<close>

type_synonym joined_row = "(user_row \<times> invoice_row option) \<times> withdrawal_row option"

definition user_balances_from :: "database \<Rightarrow> joined_row list" where
  "user_balances_from db =
     left_join
       (left_join (users db) (invoices db)
          (\<lambda>u i. u_id u = i_user_id i \<and> i_status i = ''paid''))
       (withdrawals db)
       (\<lambda>(u, i) w. u_id u = w_user_id w \<and> (w_status w = ''sent'' \<or> w_status w = ''processing''))"

text \<open>
  \<^verbatim>\<open>GROUP BY u.id, u.email, u.name\<close> and the columns of the joined rows the aggregates
  read (\<^verbatim>\<open>NULL\<close> where the join found no invoice or no withdrawal).
\<close>

definition group_key :: "joined_row \<Rightarrow> string \<times> string option \<times> string option" where
  "group_key r = (case r of ((u, i), w) \<Rightarrow> (u_id u, u_email u, u_name u))"

definition i_col :: "(invoice_row \<Rightarrow> 'a option) \<Rightarrow> joined_row \<Rightarrow> 'a option" where
  "i_col col r = (case r of ((u, i), w) \<Rightarrow> (case i of None \<Rightarrow> None | Some x \<Rightarrow> col x))"

definition w_col :: "(withdrawal_row \<Rightarrow> 'a option) \<Rightarrow> joined_row \<Rightarrow> 'a option" where
  "w_col col r = (case r of ((u, i), w) \<Rightarrow> (case w of None \<Rightarrow> None | Some x \<Rightarrow> col x))"

text \<open>The view \<^verbatim>\<open>user_balances\<close>: one row for each group of joined rows.\<close>

definition user_balances :: "database \<Rightarrow> user_balances_row list" where
  "user_balances db =
     map (\<lambda>k.
            let g = filter (\<lambda>r. group_key r = k) (user_balances_from db);
                received = coalesce (sql_sum (map (i_col i_paid_amount_zec) g)) 0;
                withdrawn = coalesce (sql_sum (map (w_col (\<lambda>w. Some (w_amount_zec w))) g)) 0
            in \<lparr>id_col = fst k, email = fst (snd k), name = snd (snd k),
                total_received_zec = received,
                total_withdrawn_zec = withdrawn,
                available_balance_zec = received - withdrawn,
                total_invoices = sql_count (map (i_col (\<lambda>i. Some (i_id i))) g),
                total_withdrawals = sql_count (map (w_col (\<lambda>w. Some (w_id w))) g)\<rparr>)
         (remdups (map group_key (user_balances_from db)))"

section \<open>The operations on the store\<close>

text \<open>
  The routes that write invoices and withdrawals (\<^verbatim>\<open>routes/invoice.js\<close>,
  \<^verbatim>\<open>routes/withdraw.js\<close>) are imported by the route index and are not among the source
  files. What follows is their behaviour as the specification words it, over the tables
  above.
\<close>

text \<open>
  Modelled from the spec: the available balance of section 3, the sum of the paid amounts
  of the user's paid invoices less the sum of the requested amounts of the user's
  withdrawals that are processing or sent. It is the quantity the view
  \<^verbatim>\<open>user_balances\<close> is compared with.
\<close>

definition spec_available_balance :: "database \<Rightarrow> string \<Rightarrow> zec" where
  "spec_available_balance db uid =
     sum_list (map (\<lambda>i. coalesce (i_paid_amount_zec i) 0)
                 (filter (\<lambda>i. i_user_id i = uid \<and> i_status i = ''paid'') (invoices db)))
     - sum_list (map w_amount_zec
                 (filter (\<lambda>w. w_user_id w = uid \<and> (w_status w = ''processing'' \<or> w_status w = ''sent''))
                    (withdrawals db)))"

text \<open>
  Modelled from the spec: the error kinds of section 7 that the missing routes return,
  with the store's own error beside them.
\<close>

datatype domain_error =
    ValidationError
  | InsufficientBalance
  | InvalidAddress
  | NotFound
  | StoreError store_error

text \<open>
  Modelled from the spec: a receipt \<^verbatim>\<open>{amount, txid}\<close> of section 4.1, as the gateway
  lists it for an address and the missing \<^verbatim>\<open>routes/invoice.js\<close> sums it.
\<close>

record receipt =
  r_amount :: zec
  r_txid :: string

text \<open>A statement the store refuses ends the operation with the store's error.\<close>

definition stored :: "store_error + database \<Rightarrow> domain_error + database" where
  "stored r = (case r of Inl e \<Rightarrow> Inl (StoreError e) | Inr db \<Rightarrow> Inr db)"

text \<open>
  Modelled from the spec: the conditional update of section 4.2 and section 9
  (\<^verbatim>\<open>UPDATE ... WHERE id = ? AND status = 'pending'\<close>), which the missing
  \<^verbatim>\<open>routes/invoice.js\<close> issues. The rows it writes pass the checks of the table or
  the statement fails.
\<close>

definition update_pending_invoice ::
  "database \<Rightarrow> string \<Rightarrow> (invoice_row \<Rightarrow> invoice_row) \<Rightarrow> store_error + database" where
  "update_pending_invoice db invoiceId f =
     (if list_all (\<lambda>i. i_id i = invoiceId \<and> i_status i = ''pending'' \<longrightarrow> invoices_check (f i)) (invoices db)
      then Inr (db\<lparr>invoices :=
                  map (\<lambda>i. if i_id i = invoiceId \<and> i_status i = ''pending'' then f i else i) (invoices db)\<rparr>)
      else Inl ConstraintViolation)"

text \<open>
  Modelled from the spec: \<^verbatim>\<open>createInvoice\<close> of section 4.2, whose code
  (\<^verbatim>\<open>routes/invoice.js\<close>) is missing. It validates \<open>amount > 0\<close> and the user, and
  stores a pending row on the address the gateway generated (\<open>address\<close>) under a fresh
  id (\<open>newId\<close>).
\<close>

definition createInvoice ::
  "database \<Rightarrow> string \<Rightarrow> string \<Rightarrow> zec \<Rightarrow> string option \<Rightarrow> string \<Rightarrow> string \<Rightarrow> nat option \<Rightarrow>
   domain_error + database" where
  "createInvoice db userId kind amount itemRef address newId expiresAt =
     (if amount \<le> 0 \<or> userId \<notin> set (map u_id (users db)) then Inl ValidationError
      else stored (insert_invoice db
             \<lparr>i_id = newId, i_user_id = userId, i_type = kind, i_item_id = itemRef,
              i_amount_zec = amount, i_z_address = address, i_status = ''pending'',
              i_paid_txid = None, i_paid_amount_zec = None, i_paid_at = None,
              i_expires_at = expiresAt\<rparr>))"

text \<open>
  Modelled from the spec: \<^verbatim>\<open>checkPayment\<close> of section 4.2, whose code
  (\<^verbatim>\<open>routes/invoice.js\<close>) is missing. An invoice already paid is returned as it is.
  Otherwise the receipts the gateway lists for the address are summed; when the sum
  reaches the requested amount the invoice is marked paid by the conditional update, with
  the sum as its paid amount, the first receipt's transaction and the time; when it does
  not, the invoice stays as it is.
\<close>

definition checkPayment :: "database \<Rightarrow> string \<Rightarrow> receipt list \<Rightarrow> nat \<Rightarrow> domain_error + database" where
  "checkPayment db invoiceId receipts now =
     (case find (\<lambda>i. i_id i = invoiceId) (invoices db) of
        None \<Rightarrow> Inl NotFound
      | Some invoice \<Rightarrow>
          if i_status invoice = ''paid'' then Inr db
          else if i_amount_zec invoice \<le> sum_list (map r_amount receipts) then
            stored (update_pending_invoice db invoiceId
              (\<lambda>i. i\<lparr>i_status := ''paid'',
                      i_paid_amount_zec := Some (sum_list (map r_amount receipts)),
                      i_paid_txid := (case receipts of [] \<Rightarrow> None | r # rs \<Rightarrow> Some (r_txid r)),
                      i_paid_at := Some now\<rparr>))
          else Inr db)"

text \<open>
  Modelled from the spec: \<^verbatim>\<open>expire\<close> of section 4.2, whose code
  (\<^verbatim>\<open>routes/invoice.js\<close>) is missing: only while the invoice is pending and past
  \<^verbatim>\<open>expires_at\<close>.
\<close>

definition expire :: "database \<Rightarrow> string \<Rightarrow> nat \<Rightarrow> domain_error + database" where
  "expire db invoiceId now =
     (case find (\<lambda>i. i_id i = invoiceId) (invoices db) of
        None \<Rightarrow> Inl NotFound
      | Some invoice \<Rightarrow>
          if i_status invoice = ''pending'' \<and> (case i_expires_at invoice of None \<Rightarrow> False | Some t \<Rightarrow> t < now)
          then stored (update_pending_invoice db invoiceId (\<lambda>i. i\<lparr>i_status := ''expired''\<rparr>))
          else Inl ValidationError)"

text \<open>
  Modelled from the spec: the explicit cancel of the state machine of section 4.2, whose
  code (\<^verbatim>\<open>routes/invoice.js\<close>) is missing: only while the invoice is pending.
\<close>

definition cancel :: "database \<Rightarrow> string \<Rightarrow> domain_error + database" where
  "cancel db invoiceId =
     (case find (\<lambda>i. i_id i = invoiceId) (invoices db) of
        None \<Rightarrow> Inl NotFound
      | Some invoice \<Rightarrow>
          if i_status invoice = ''pending''
          then stored (update_pending_invoice db invoiceId (\<lambda>i. i\<lparr>i_status := ''cancelled''\<rparr>))
          else Inl ValidationError)"

text \<open>
  Modelled from the spec: the calls that the missing \<^verbatim>\<open>routes/invoice.js\<close> serves, one
  constructor for each operation of section 4.2.
\<close>

datatype invoice_op =
    CreateInvoice string string zec "string option" string string "nat option"
  | CheckPayment string "receipt list" nat
  | Expire string nat
  | Cancel string

text \<open>Modelled from the spec: one call of the missing \<^verbatim>\<open>routes/invoice.js\<close>.\<close>

fun invoice_step :: "database \<Rightarrow> invoice_op \<Rightarrow> domain_error + database" where
  "invoice_step db (CreateInvoice userId kind amount itemRef address newId expiresAt) =
     createInvoice db userId kind amount itemRef address newId expiresAt"
| "invoice_step db (CheckPayment invoiceId receipts now) = checkPayment db invoiceId receipts now"
| "invoice_step db (Expire invoiceId now) = expire db invoiceId now"
| "invoice_step db (Cancel invoiceId) = cancel db invoiceId"

text \<open>
  Modelled from the spec: the store after a call of the missing routes; a call that fails
  leaves the store as it was. A reachable state of the invoices is what a sequence of
  calls leaves.
\<close>

definition after :: "database \<Rightarrow> invoice_op \<Rightarrow> database" where
  "after db op = (case invoice_step db op of Inl e \<Rightarrow> db | Inr db' \<Rightarrow> db')"

text \<open>
  The invariant of the invoices: a paid row records a paid amount that covers the
  requested amount, and no two rows share an id.
\<close>

definition paid_in_full :: "invoice_row \<Rightarrow> bool" where
  "paid_in_full i =
     (i_status i = ''paid'' \<longrightarrow>
        (case i_paid_amount_zec i of None \<Rightarrow> False | Some p \<Rightarrow> i_amount_zec i \<le> p))"

definition invoices_ok :: "database \<Rightarrow> bool" where
  "invoices_ok db = (distinct (map i_id (invoices db)) \<and> list_all paid_in_full (invoices db))"

text \<open>
  Modelled from the spec: \<^verbatim>\<open>createWithdrawal\<close> of section 4.4, whose code
  (\<^verbatim>\<open>routes/withdraw.js\<close>) is missing. The fee policy is the parameter
  \<open>estimateFee\<close>, a function of the amount, and \<open>wellFormed\<close> is the answer of the
  gateway's address validation. The net amount is the requested amount less the fee, and
  all three are stored in a pending row.
\<close>

definition createWithdrawal ::
  "(zec \<Rightarrow> zec) \<Rightarrow> bool \<Rightarrow> database \<Rightarrow> string \<Rightarrow> string \<Rightarrow> zec \<Rightarrow> string \<Rightarrow> domain_error + database" where
  "createWithdrawal estimateFee wellFormed db userId destination amount newId =
     (if amount \<le> 0 then Inl ValidationError
      else if \<not> wellFormed then Inl InvalidAddress
      else if spec_available_balance db userId < amount then Inl InsufficientBalance
      else stored (insert_withdrawal db
             \<lparr>w_id = newId, w_user_id = userId, w_amount_zec = amount,
              w_fee_zec = estimateFee amount, w_net_zec = amount - estimateFee amount,
              w_to_address = destination, w_status = ''pending'', w_txid = None,
              w_processed_at = None\<rparr>))"

section \<open>Example inputs\<close>

text \<open>Concrete nodes, functions and stores on which the properties below are run.\<close>

definition busy_node :: node where
  "busy_node n req = Resolved \<lparr>result = JArr [JObj [(''status'', JStr ''executing'')]], error = None\<rparr>"

definition down_node :: node where
  "down_node n req = Rejected None ''connect ECONNREFUSED 127.0.0.1:8232''"

definition failing_node :: node where
  "failing_node n req =
     Resolved \<lparr>result = JArr [JObj [(''status'', JStr (if n = 0 then ''executing'' else ''failed''))]],
               error = None\<rparr>"

definition forgetful_node :: node where
  "forgetful_node n req = Resolved \<lparr>result = JArr [], error = None\<rparr>"

definition queueing_node :: node where
  "queueing_node n req =
     Resolved \<lparr>result = JArr [JObj [(''id'', JStr ''opid-1''),
                                   (''status'', JStr (if n = 0 then ''queued'' else ''executing''))]],
               error = None\<rparr>"

definition succeeding_node :: node where
  "succeeding_node n req =
     Resolved \<lparr>result = JArr [JObj [(''status'', JStr (if n = 0 then ''queued'' else ''success''))]],
               error = None\<rparr>"

definition flaky :: "nat \<Rightarrow> (thrown + string) \<times> nat" where
  "flaky n =
     (if n = 0 then Inl (Obj \<lparr>error_code = None, error_message = ''socket hang up''\<rparr>)
      else Inl (Obj \<lparr>error_code = Some ''VALIDATION_ERROR'', error_message = ''amount_zec must be positive''\<rparr>),
      Suc n)"

definition recovering :: "nat \<Rightarrow> (thrown + string) \<times> nat" where
  "recovering n =
     (if n < 2 then Inl (Obj \<lparr>error_code = Some ''ECONNRESET'', error_message = ''socket hang up''\<rparr>)
      else Inr ''ok'',
      Suc n)"

definition rejecting_undefined :: "nat \<Rightarrow> (thrown + string) \<times> nat" where
  "rejecting_undefined n = (Inl Undefined, Suc n)"

definition stubborn :: "nat \<Rightarrow> (thrown + string) \<times> nat" where
  "stubborn n = (Inl (Obj \<lparr>error_code = Some ''ECONNRESET'', error_message = ''socket hang up''\<rparr>), Suc n)"

definition paid_invoice :: "string \<Rightarrow> string \<Rightarrow> string \<Rightarrow> zec \<Rightarrow> invoice_row" where
  "paid_invoice iid uid addr amount =
     \<lparr>i_id = iid, i_user_id = uid, i_type = ''one_time'', i_item_id = None, i_amount_zec = amount,
      i_z_address = addr, i_status = ''paid'', i_paid_txid = Some ''tx'', i_paid_amount_zec = Some amount,
      i_paid_at = Some 1, i_expires_at = None\<rparr>"

definition sent_withdrawal :: "string \<Rightarrow> string \<Rightarrow> zec \<Rightarrow> zec \<Rightarrow> withdrawal_row" where
  "sent_withdrawal wid uid amount fee =
     \<lparr>w_id = wid, w_user_id = uid, w_amount_zec = amount, w_fee_zec = fee, w_net_zec = amount - fee,
      w_to_address = ''zs1dest'', w_status = ''sent'', w_txid = Some ''tx'', w_processed_at = Some 2\<rparr>"

definition two_by_two :: database where
  "two_by_two =
     \<lparr>users = [\<lparr>u_id = ''u1'', u_email = Some ''creator@example.com'', u_name = Some ''Content Creator''\<rparr>],
      invoices = [paid_invoice ''i1'' ''u1'' ''zs1a'' 100000000, paid_invoice ''i2'' ''u1'' ''zs1b'' 100000000],
      withdrawals = [sent_withdrawal ''w1'' ''u1'' 50000000 1000000, sent_withdrawal ''w2'' ''u1'' 50000000 1000000]\<rparr>"

definition one_user :: database where
  "one_user =
     \<lparr>users = [\<lparr>u_id = ''u1'', u_email = Some ''test@example.com'', u_name = Some ''Test User''\<rparr>],
      invoices = [], withdrawals = []\<rparr>"

definition pay_in_two_checks :: "invoice_op list" where
  "pay_in_two_checks =
     [CreateInvoice ''u1'' ''one_time'' 150000000 None ''zs1a'' ''i1'' None,
      CheckPayment ''i1'' [\<lparr>r_amount = 100000000, r_txid = ''t1''\<rparr>] 5,
      CheckPayment ''i1'' [\<lparr>r_amount = 100000000, r_txid = ''t1''\<rparr>, \<lparr>r_amount = 50000000, r_txid = ''t2''\<rparr>] 6]"

definition unbalanced_row :: withdrawal_row where
  "unbalanced_row =
     \<lparr>w_id = ''w1'', w_user_id = ''u1'', w_amount_zec = 200000000, w_fee_zec = 50000000,
      w_net_zec = 100000000, w_to_address = ''zs1dest'', w_status = ''pending'', w_txid = None,
      w_processed_at = None\<rparr>"

definition funded_user :: database where
  "funded_user = one_user\<lparr>invoices := [paid_invoice ''i1'' ''u1'' ''zs1a'' 300000000]\<rparr>"

definition one_percent :: "zec \<Rightarrow> zec" where
  "one_percent amount = amount div 100"

section \<open>Properties of the gateway\<close>

lemma posts_append: "posts (tr @ tr') = posts tr + posts tr'"
  by (simp add: posts_def)

lemma zcashRpc_eq:
  "zcashRpc nd m ps tr =
     (rpc_value (nd (posts tr) \<lparr>jsonrpc = ''1.0'', rpc_method = m, params = ps\<rparr>),
      tr @ [Post \<lparr>jsonrpc = ''1.0'', rpc_method = m, params = ps\<rparr>])"
  by (simp add: zcashRpc_def axios_post_def)

lemma getOperationStatus_eq:
  "getOperationStatus nd opid tr = (polled nd opid (posts tr), tr @ [Post (status_query opid)])"
  by (simp add: getOperationStatus_def zcashRpc_eq polled_def status_query_def split: sum.splits)

lemma posts_snoc_Post: "posts (tr @ [Post r]) = Suc (posts tr)"
  by (simp add: posts_def)

lemma posts_snoc_Sleep: "posts (tr @ [Sleep d]) = posts tr"
  by (simp add: posts_def)

lemma polling_Suc: "polling opid iv (Suc k) = [Post (status_query opid), Sleep iv] @ polling opid iv k"
  by (simp add: polling_def)

lemma wait_step_running:
  assumes "i < m" "running (polled nd opid (posts tr))"
  shows "waitForOperation_from nd opid m iv i tr =
         waitForOperation_from nd opid m iv (Suc i) (tr @ [Post (status_query opid), Sleep iv])"
  using assms
  by (subst waitForOperation_from.simps)
     (auto simp: getOperationStatus_eq running_def split: sum.splits)

lemma wait_step_done:
  assumes "i < m" "\<not> running (polled nd opid (posts tr))"
  shows "waitForOperation_from nd opid m iv i tr =
         ((case polled nd opid (posts tr) of Inl e \<Rightarrow> Inl e
           | Inr st \<Rightarrow> (case js_status st of Inl e \<Rightarrow> Inl e | Inr s \<Rightarrow> Inr st)),
          tr @ [Post (status_query opid)])"
  using assms
  by (subst waitForOperation_from.simps)
     (auto simp: getOperationStatus_eq running_def split: sum.splits)

lemma wait_exhausted:
  assumes "\<not> i < m"
  shows "waitForOperation_from nd opid m iv i tr = (Inl (timed_out opid m), tr)"
  using assms by (subst waitForOperation_from.simps) simp

lemma posts_step: "posts (tr @ [Post r, Sleep d]) = Suc (posts tr)"
  by (simp add: posts_def)

lemma wait_all_running:
  "m - i = d \<Longrightarrow> (\<forall>k < d. running (polled nd opid (posts tr + k))) \<Longrightarrow>
   waitForOperation_from nd opid m iv i tr = (Inl (timed_out opid m), tr @ polling opid iv d)"
proof (induction d arbitrary: i tr)
  case 0
  then show ?case by (simp add: wait_exhausted polling_def)
next
  case (Suc d)
  from Suc.prems have lt: "i < m" and d: "m - Suc i = d" by simp_all
  from Suc.prems have r0: "running (polled nd opid (posts tr))"
    by (metis add.right_neutral zero_less_Suc)
  have rest: "\<forall>k < d. running (polled nd opid (posts (tr @ [Post (status_query opid), Sleep iv]) + k))"
  proof (intro allI impI)
    fix k assume "k < d"
    then have "running (polled nd opid (posts tr + Suc k))"
      using Suc.prems(2) [rule_format, of "Suc k"] by simp
    then show "running (polled nd opid (posts (tr @ [Post (status_query opid), Sleep iv]) + k))"
      by (simp add: posts_step)
  qed
  show ?case
    using Suc.IH [OF d rest] wait_step_running [OF lt r0]
    by (simp add: polling_Suc)
qed

lemma wait_first_settled:
  "i + k < m \<Longrightarrow> (\<forall>j < k. running (polled nd opid (posts tr + j))) \<Longrightarrow>
   \<not> running (polled nd opid (posts tr + k)) \<Longrightarrow>
   waitForOperation_from nd opid m iv i tr =
     (settle (polled nd opid (posts tr + k)), tr @ polling opid iv k @ [Post (status_query opid)])"
proof (induction k arbitrary: i tr)
  case 0
  then show ?case
    using wait_step_done [of i m nd opid tr iv] by (simp add: polling_def settle_def)
next
  case (Suc k)
  from Suc.prems have lt: "i < m" and lt': "Suc i + k < m" by simp_all
  from Suc.prems have r0: "running (polled nd opid (posts tr))"
    by (metis add.right_neutral zero_less_Suc)
  let ?tr = "tr @ [Post (status_query opid), Sleep iv]"
  have rest: "\<forall>j < k. running (polled nd opid (posts ?tr + j))"
  proof (intro allI impI)
    fix j assume "j < k"
    then have "running (polled nd opid (posts tr + Suc j))"
      using Suc.prems(2) [rule_format, of "Suc j"] by simp
    then show "running (polled nd opid (posts ?tr + j))"
      by (simp add: posts_step)
  qed
  have last: "\<not> running (polled nd opid (posts ?tr + k))"
    using Suc.prems(3) by (simp add: posts_step)
  show ?case
    using Suc.IH [OF lt' rest last] wait_step_running [OF lt r0]
    by (simp add: polling_Suc posts_step)
qed

lemma timed_out_not_rpc: "rpc_value out \<noteq> Inl (timed_out opid m)"
  by (auto simp: rpc_value_def zcashRpc_try_def zcashRpc_catch_def timed_out_def
      split: http_outcome.splits option.splits sum.splits)

lemma js_first_not_Error: "js_first v \<noteq> Inl (Error msg)"
  by (cases v rule: js_first.cases) auto

lemma js_status_not_Error: "js_status v \<noteq> Inl (Error msg)"
  by (cases v rule: js_status.cases) auto

lemma settle_not_timed_out: "settle (polled nd opid n) \<noteq> Inl (timed_out opid' m)"
  using timed_out_not_rpc [of "nd n (status_query opid)" opid' m]
  by (auto simp: settle_def polled_def timed_out_def js_first_not_Error js_status_not_Error
      split: sum.splits)

lemma wait_shape:
  "(\<exists>k. k = m \<and> waitForOperation_from nd opid m iv 0 tr = (Inl (timed_out opid m), tr @ polling opid iv k))
   \<or> (\<exists>k r. k < m \<and> r \<noteq> Inl (timed_out opid m) \<and>
        waitForOperation_from nd opid m iv 0 tr = (r, tr @ polling opid iv k @ [Post (status_query opid)]))"
proof (cases "\<forall>k < m. running (polled nd opid (posts tr + k))")
  case True
  then show ?thesis using wait_all_running [of m 0 m nd opid tr iv] by simp
next
  case False
  then obtain k where k: "k < m" "\<not> running (polled nd opid (posts tr + k))"
    and least: "\<forall>j < k. running (polled nd opid (posts tr + j))"
    using exists_least_iff [of "\<lambda>k. k < m \<and> \<not> running (polled nd opid (posts tr + k))"]
    by (metis (no_types, lifting) order.strict_trans)
  show ?thesis
    using wait_first_settled [of 0 k m nd opid tr iv] k least settle_not_timed_out
    by auto
qed

lemma rpc_value_simps:
  "rpc_value (Rejected None msg) = Inl (Error (''Zcash RPC Connection Error: '' @ msg))"
  "rpc_value (Rejected (Some r) msg) =
     Inl (Error (''Zcash RPC HTTP Error: '' @ string_of_nat (status r) @ '' - '' @ statusText r))"
  "error reply = Some e \<Longrightarrow>
     rpc_value (Resolved reply) = Inl (Error (''Zcash RPC Connection Error: '' @ ''Zcash RPC Error: '' @ message e))"
  "error reply = None \<Longrightarrow> rpc_value (Resolved reply) = Inr (result reply)"
  by (simp_all add: rpc_value_def zcashRpc_try_def zcashRpc_catch_def)

text \<open>
  C1. The claim: a reply of status 2xx whose body carries an \<^verbatim>\<open>error\<close> gives an RPC
  error with the node's message, distinct from a connection error. In the code the
  \<^verbatim>\<open>throw\<close> for that case stands inside the \<^verbatim>\<open>try\<close> block, so the block's own
  \<^verbatim>\<open>catch\<close> receives it, finds no \<^verbatim>\<open>response\<close> on it and rethrows it as a
  connection error: the node's error \<open>Insufficient funds\<close> comes out under the prefix of
  a connection error, and is the very error that a transport failure with the message
  \<open>Zcash RPC Error: Insufficient funds\<close> produces.
\<close>

theorem zcashRpc_node_error_rethrown_as_connection_error:
  "fst (zcashRpc (\<lambda>n req. Resolved \<lparr>result = JNull, error = Some \<lparr>code = - 6, message = ''Insufficient funds''\<rparr>\<rparr>)
          ''z_sendmany'' [] [])
     = Inl (Error ''Zcash RPC Connection Error: Zcash RPC Error: Insufficient funds'')
   \<and> fst (zcashRpc (\<lambda>n req. Rejected None ''Zcash RPC Error: Insufficient funds'') ''z_sendmany'' [] [])
     = Inl (Error ''Zcash RPC Connection Error: Zcash RPC Error: Insufficient funds'')"
  by (simp add: zcashRpc_eq rpc_value_simps)

lemma posts_polling: "posts (polling opid iv k) = k"
  by (induction k) (simp_all add: polling_def posts_def)

lemma sleeps_append: "sleeps (tr @ tr') = sleeps tr @ sleeps tr'"
  by (simp add: sleeps_def)

lemma sleeps_polling: "sleeps (polling opid iv k) = replicate k iv"
  by (induction k) (simp_all add: polling_def sleeps_def)

lemma posts_Nil: "posts [] = 0"
  by (simp add: posts_def)

lemma posts_single: "posts [Post r] = 1"
  by (simp add: posts_def)

lemma wait_posts_bound:
  "posts (snd (waitForOperation_from nd opid m iv 0 tr)) \<le> posts tr + m"
  using wait_shape [of m nd opid iv tr]
  by (auto simp: posts_append posts_polling posts_single)

text \<open>
  C8. Each call of \<^verbatim>\<open>zcashRpc\<close>, \<^verbatim>\<open>generateZAddress\<close>, \<^verbatim>\<open>getReceivedByAddress\<close>,
  \<^verbatim>\<open>sendMany\<close>, \<^verbatim>\<open>getOperationStatus\<close>, \<^verbatim>\<open>validateAddress\<close> and
  \<^verbatim>\<open>getBlockchainInfo\<close> adds exactly one request to the run, whatever the node
  answers, a failure included: nothing is retried. \<^verbatim>\<open>waitForOperation\<close> alone posts
  more than once, never more than \<open>maxAttempts\<close> times, and exactly \<open>maxAttempts\<close>
  times when every attempt finds the operation unfinished.
\<close>

theorem gateway_calls_post_once:
  "snd (zcashRpc nd m ps tr) = tr @ [Post \<lparr>jsonrpc = ''1.0'', rpc_method = m, params = ps\<rparr>]
   \<and> snd (generateZAddress nd tr) =
       tr @ [Post \<lparr>jsonrpc = ''1.0'', rpc_method = ''z_getnewaddress'', params = []\<rparr>]
   \<and> snd (getReceivedByAddress nd address minconf tr) =
       tr @ [Post \<lparr>jsonrpc = ''1.0'', rpc_method = ''z_listreceivedbyaddress'',
                   params = [or_default minconf (JNum 0), JArr [address]]\<rparr>]
   \<and> snd (sendMany nd recipients minconf fee tr) =
       tr @ [Post \<lparr>jsonrpc = ''1.0'', rpc_method = ''z_sendmany'',
                   params = [JStr [], recipients, or_default minconf (JNum 1),
                             or_default fee (JNum (1 / 10000))]\<rparr>]
   \<and> snd (getOperationStatus nd opid tr) = tr @ [Post (status_query opid)]
   \<and> snd (validateAddress nd address tr) =
       tr @ [Post \<lparr>jsonrpc = ''1.0'', rpc_method = ''validateaddress'', params = [address]\<rparr>]
   \<and> snd (getBlockchainInfo nd tr) =
       tr @ [Post \<lparr>jsonrpc = ''1.0'', rpc_method = ''getblockchaininfo'', params = []\<rparr>]
   \<and> posts (snd (waitForOperation nd opid maxAttempts interval tr))
       \<le> posts tr + default_to 50 maxAttempts
   \<and> ((\<forall>k < default_to 50 maxAttempts. running (polled nd opid (posts tr + k))) \<longrightarrow>
        posts (snd (waitForOperation nd opid maxAttempts interval tr))
          = posts tr + default_to 50 maxAttempts)"
proof -
  let ?m = "default_to 50 maxAttempts" and ?iv = "default_to 2500 interval"
  have single: "snd (zcashRpc nd m ps tr) = tr @ [Post \<lparr>jsonrpc = ''1.0'', rpc_method = m, params = ps\<rparr>]"
    for m ps
    by (simp add: zcashRpc_eq)
  have bound: "posts (snd (waitForOperation nd opid maxAttempts interval tr)) \<le> posts tr + ?m"
    unfolding waitForOperation_def by (rule wait_posts_bound)
  have all: "posts (snd (waitForOperation nd opid maxAttempts interval tr)) = posts tr + ?m"
    if "\<forall>k < ?m. running (polled nd opid (posts tr + k))"
    using wait_all_running [of ?m 0 ?m nd opid tr ?iv] that
    by (simp add: waitForOperation_def posts_append posts_polling)
  show ?thesis
    using bound all
    by (simp add: single generateZAddress_def getReceivedByAddress_def sendMany_def
        getOperationStatus_eq validateAddress_def getBlockchainInfo_def)
qed

lemma running_busy: "running (polled busy_node opid n)"
  by (simp add: running_def polled_def busy_node_def rpc_value_simps in_progress_def)

text \<open>
  C8, at concrete inputs: a refused connection is reported after one request, and three
  attempts on an operation that keeps executing post three requests.
\<close>

theorem gateway_calls_post_once_witness:
  "zcashRpc down_node ''getblockchaininfo'' [] [] =
     (Inl (Error ''Zcash RPC Connection Error: connect ECONNREFUSED 127.0.0.1:8232''),
      [Post \<lparr>jsonrpc = ''1.0'', rpc_method = ''getblockchaininfo'', params = []\<rparr>])
   \<and> posts (snd (waitForOperation busy_node ''opid-1'' (Some 3) (Some 10) [])) = 3"
proof -
  have "fst (zcashRpc down_node ''getblockchaininfo'' [] []) =
          Inl (Error ''Zcash RPC Connection Error: connect ECONNREFUSED 127.0.0.1:8232'')"
    by (simp add: zcashRpc_eq down_node_def rpc_value_simps)
  moreover have "\<forall>k < default_to 50 (Some 3). running (polled busy_node ''opid-1'' (posts [] + k))"
    by (simp add: running_busy)
  ultimately show ?thesis
    using gateway_calls_post_once [of down_node "''getblockchaininfo''" "[]" "[]"]
          gateway_calls_post_once [of busy_node _ _ "[]" _ _ _ _ "''opid-1''" "Some 3" "Some 10"]
    by (simp add: prod_eq_iff default_to_def posts_def)
qed

lemma reported_polled:
  assumes "reported nd opid n = Some (st, s)"
  shows "polled nd opid n = Inr st \<and> js_status st = Inr s"
proof (cases "nd n (status_query opid)")
  case (Rejected resp msg)
  then show ?thesis using assms by (simp add: reported_def)
next
  case (Resolved reply)
  then have noerr: "error reply = None"
    using assms by (auto simp: reported_def split: option.splits)
  from Resolved assms noerr obtain kvs rest where
    res: "result reply = JArr (JObj kvs # rest)" and st: "st = JObj kvs"
    and s: "map_of kvs ''status'' = Some s"
    by (auto simp: reported_def split: jsval.splits list.splits option.splits)
  have "polled nd opid n = Inr st"
    using Resolved noerr res st by (simp add: polled_def rpc_value_simps)
  moreover have "js_status st = Inr s"
    using st s by simp
  ultimately show ?thesis by simp
qed

lemma reported_running:
  "reported nd opid n = Some (st, JStr ''queued'') \<or> reported nd opid n = Some (st, JStr ''executing'')
   \<Longrightarrow> running (polled nd opid n)"
  by (auto dest!: reported_polled simp: running_def in_progress_def)

lemma reported_not_running:
  "reported nd opid n = Some (st, s) \<Longrightarrow> s \<noteq> JStr ''queued'' \<Longrightarrow> s \<noteq> JStr ''executing''
   \<Longrightarrow> \<not> running (polled nd opid n) \<and> settle (polled nd opid n) = Inr st"
  by (auto dest!: reported_polled simp: running_def in_progress_def settle_def)

text \<open>
  C3. When the node reports the status \<^verbatim>\<open>'queued'\<close> or \<^verbatim>\<open>'executing'\<close> on every one
  of the \<open>maxAttempts\<close> queries, \<^verbatim>\<open>waitForOperation\<close> throws the error
  \<open>Operation <opid> timed out after <maxAttempts> attempts\<close>. When the first report
  that is neither carries any other status, \<^verbatim>\<open>'failed'\<close> included, that operation
  object is returned as a value. And whenever some query within the budget reports a status
  other than \<^verbatim>\<open>'queued'\<close> and \<^verbatim>\<open>'executing'\<close>, the timeout error is not what
  \<^verbatim>\<open>waitForOperation\<close> throws: a status reported by the chain is never turned into it.
\<close>

theorem waitForOperation_timeout_or_status:
  "((\<forall>k < default_to 50 maxAttempts.
       \<exists>st. reported nd opid (posts tr + k) = Some (st, JStr ''queued'')
          \<or> reported nd opid (posts tr + k) = Some (st, JStr ''executing'')) \<longrightarrow>
      fst (waitForOperation nd opid maxAttempts interval tr)
        = Inl (Error (''Operation '' @ opid @ '' timed out after ''
                       @ string_of_nat (default_to 50 maxAttempts) @ '' attempts'')))
   \<and> (\<forall>k st s. k < default_to 50 maxAttempts \<longrightarrow>
         (\<forall>j < k. \<exists>st'. reported nd opid (posts tr + j) = Some (st', JStr ''queued'')
                    \<or> reported nd opid (posts tr + j) = Some (st', JStr ''executing'')) \<longrightarrow>
         reported nd opid (posts tr + k) = Some (st, s) \<longrightarrow>
         s \<noteq> JStr ''queued'' \<longrightarrow> s \<noteq> JStr ''executing'' \<longrightarrow>
         fst (waitForOperation nd opid maxAttempts interval tr) = Inr st)
   \<and> (\<forall>k st s. k < default_to 50 maxAttempts \<longrightarrow>
         reported nd opid (posts tr + k) = Some (st, s) \<longrightarrow>
         s \<noteq> JStr ''queued'' \<longrightarrow> s \<noteq> JStr ''executing'' \<longrightarrow>
         fst (waitForOperation nd opid maxAttempts interval tr)
           \<noteq> Inl (Error (''Operation '' @ opid @ '' timed out after ''
                          @ string_of_nat (default_to 50 maxAttempts) @ '' attempts'')))"
proof (intro conjI allI impI)
  let ?m = "default_to 50 maxAttempts" and ?iv = "default_to 2500 interval"
  let ?timeout = "Inl (Error (''Operation '' @ opid @ '' timed out after '' @ string_of_nat ?m @ '' attempts''))
                    :: js_error + jsval"
  have timeout: "?timeout = Inl (timed_out opid ?m)"
    by (simp add: timed_out_def)
  {
    assume "\<forall>k < ?m. \<exists>st. reported nd opid (posts tr + k) = Some (st, JStr ''queued'')
                       \<or> reported nd opid (posts tr + k) = Some (st, JStr ''executing'')"
    then have "\<forall>k < ?m. running (polled nd opid (posts tr + k))"
      using reported_running by blast
    then show "fst (waitForOperation nd opid maxAttempts interval tr) = ?timeout"
      using wait_all_running [of ?m 0 ?m nd opid tr ?iv] by (simp add: waitForOperation_def timed_out_def)
  next
    fix k st s
    assume k: "k < ?m"
      and before: "\<forall>j < k. \<exists>st'. reported nd opid (posts tr + j) = Some (st', JStr ''queued'')
                             \<or> reported nd opid (posts tr + j) = Some (st', JStr ''executing'')"
      and ob: "reported nd opid (posts tr + k) = Some (st, s)"
      and fin: "s \<noteq> JStr ''queued''" "s \<noteq> JStr ''executing''"
    have run: "\<forall>j < k. running (polled nd opid (posts tr + j))"
      using before reported_running by blast
    have stop: "\<not> running (polled nd opid (posts tr + k))"
      and val: "settle (polled nd opid (posts tr + k)) = Inr st"
      using reported_not_running [OF ob fin] by simp_all
    show "fst (waitForOperation nd opid maxAttempts interval tr) = Inr st"
      using wait_first_settled [of 0 k ?m nd opid tr ?iv] k run stop val
      by (simp add: waitForOperation_def)
  next
    fix k st s
    assume k: "k < ?m"
      and ob: "reported nd opid (posts tr + k) = Some (st, s)"
      and fin: "s \<noteq> JStr ''queued''" "s \<noteq> JStr ''executing''"
    have "\<not> running (polled nd opid (posts tr + k))"
      using reported_not_running [OF ob fin] by simp
    then obtain k' where k': "k' < ?m" "\<not> running (polled nd opid (posts tr + k'))"
      and least: "\<forall>j < k'. running (polled nd opid (posts tr + j))"
      using k exists_least_iff [of "\<lambda>k. k < ?m \<and> \<not> running (polled nd opid (posts tr + k))"]
      by (metis (no_types, lifting) order.strict_trans)
    have "fst (waitForOperation nd opid maxAttempts interval tr) = settle (polled nd opid (posts tr + k'))"
      using wait_first_settled [of 0 k' ?m nd opid tr ?iv] k' least
      by (simp add: waitForOperation_def)
    then show "fst (waitForOperation nd opid maxAttempts interval tr) \<noteq> ?timeout"
      using settle_not_timed_out [of nd opid "posts tr + k'" opid ?m] timeout by simp
  }
qed

lemma reported_queueing:
  "reported queueing_node ''opid-1'' n =
     Some (JObj [(''id'', JStr ''opid-1''), (''status'', JStr (if n = 0 then ''queued'' else ''executing''))],
           JStr (if n = 0 then ''queued'' else ''executing''))"
  by (simp add: reported_def queueing_node_def)

lemma reported_failing:
  "reported failing_node ''opid-1'' n =
     Some (JObj [(''status'', JStr (if n = 0 then ''executing'' else ''failed''))],
           JStr (if n = 0 then ''executing'' else ''failed''))"
  by (simp add: reported_def failing_node_def)

lemma reported_succeeding:
  "reported succeeding_node ''opid-1'' n =
     Some (JObj [(''status'', JStr (if n = 0 then ''queued'' else ''success''))],
           JStr (if n = 0 then ''queued'' else ''success''))"
  by (simp add: reported_def succeeding_node_def)

text \<open>
  C3, at concrete inputs: an operation reported \<^verbatim>\<open>'queued'\<close> and then \<^verbatim>\<open>'executing'\<close>
  times out after two attempts; an operation reported \<^verbatim>\<open>'failed'\<close> on the second
  attempt is returned as it is, and so is one reported \<^verbatim>\<open>'success'\<close>.
\<close>

theorem waitForOperation_timeout_or_status_witness:
  "fst (waitForOperation queueing_node ''opid-1'' (Some 2) (Some 10) [])
     = Inl (Error ''Operation opid-1 timed out after 2 attempts'')
   \<and> fst (waitForOperation failing_node ''opid-1'' (Some 5) (Some 10) [])
     = Inr (JObj [(''status'', JStr ''failed'')])
   \<and> fst (waitForOperation succeeding_node ''opid-1'' (Some 5) (Some 10) [])
     = Inr (JObj [(''status'', JStr ''success'')])
   \<and> fst (waitForOperation failing_node ''opid-1'' (Some 5) (Some 10) [])
     \<noteq> Inl (Error ''Operation opid-1 timed out after 5 attempts'')"
proof -
  have two: "default_to 50 (Some (2::nat)) = 2" and five: "default_to 50 (Some (5::nat)) = 5"
    by (simp_all add: default_to_def)
  have msg2: "string_of_nat 2 = ''2''" and msg5: "string_of_nat 5 = ''5''"
    by (simp_all add: string_of_nat.simps digit_char_def)
  have queueing: "\<exists>st. reported queueing_node ''opid-1'' (posts [] + k) = Some (st, JStr ''queued'')
         \<or> reported queueing_node ''opid-1'' (posts [] + k) = Some (st, JStr ''executing'')"
    if "k < default_to 50 (Some 2)" for k
    by (simp add: reported_queueing posts_Nil)
  have first_f: "\<exists>st'. reported failing_node ''opid-1'' (posts [] + j) = Some (st', JStr ''queued'')
                    \<or> reported failing_node ''opid-1'' (posts [] + j) = Some (st', JStr ''executing'')"
    if "j < 1" for j
    using that by (simp add: reported_failing posts_Nil)
  have second_f: "reported failing_node ''opid-1'' (posts [] + 1)
                    = Some (JObj [(''status'', JStr ''failed'')], JStr ''failed'')"
    by (simp add: reported_failing posts_Nil)
  have first_s: "\<exists>st'. reported succeeding_node ''opid-1'' (posts [] + j) = Some (st', JStr ''queued'')
                    \<or> reported succeeding_node ''opid-1'' (posts [] + j) = Some (st', JStr ''executing'')"
    if "j < 1" for j
    using that by (simp add: reported_succeeding posts_Nil)
  have second_s: "reported succeeding_node ''opid-1'' (posts [] + 1)
                    = Some (JObj [(''status'', JStr ''success'')], JStr ''success'')"
    by (simp add: reported_succeeding posts_Nil)
  have lt: "(1::nat) < default_to 50 (Some 5)"
    by (simp add: five)
  have ne: "JStr ''failed'' \<noteq> JStr ''queued''" "JStr ''failed'' \<noteq> JStr ''executing''"
    "JStr ''success'' \<noteq> JStr ''queued''" "JStr ''success'' \<noteq> JStr ''executing''"
    by simp_all
  note q = waitForOperation_timeout_or_status [of "Some 2" queueing_node "''opid-1''" "[]" "Some 10"]
  note f = waitForOperation_timeout_or_status [of "Some 5" failing_node "''opid-1''" "[]" "Some 10"]
  note s = waitForOperation_timeout_or_status [of "Some 5" succeeding_node "''opid-1''" "[]" "Some 10"]
  have a: "fst (waitForOperation queueing_node ''opid-1'' (Some 2) (Some 10) [])
             = Inl (Error ''Operation opid-1 timed out after 2 attempts'')"
    using q [THEN conjunct1, rule_format, OF queueing] by (simp add: two msg2)
  have b: "fst (waitForOperation failing_node ''opid-1'' (Some 5) (Some 10) [])
             = Inr (JObj [(''status'', JStr ''failed'')])"
    using f [THEN conjunct2, THEN conjunct1, rule_format, OF lt first_f second_f ne(1) ne(2)] .
  have c: "fst (waitForOperation succeeding_node ''opid-1'' (Some 5) (Some 10) [])
             = Inr (JObj [(''status'', JStr ''success'')])"
    using s [THEN conjunct2, THEN conjunct1, rule_format, OF lt first_s second_s ne(3) ne(4)] .
  have d: "fst (waitForOperation failing_node ''opid-1'' (Some 5) (Some 10) [])
             \<noteq> Inl (Error ''Operation opid-1 timed out after 5 attempts'')"
    using f [THEN conjunct2, THEN conjunct2, rule_format, OF lt second_f ne(1) ne(2)]
    by (simp add: five msg5)
  show ?thesis using a b c d by simp
qed

text \<open>
  C7. \<^verbatim>\<open>waitForOperation\<close> returns for every node and every \<open>maxAttempts\<close> (the
  function is total: its loop counter climbs to \<open>maxAttempts\<close>). Its run is \<open>k\<close>
  unfinished attempts, each a status query followed by a sleep of \<open>interval\<close> ms, and
  then either one last query (\<open>k < maxAttempts\<close>) or, the budget spent
  (\<open>k = maxAttempts\<close>), the timeout error; the timeout error is thrown exactly when the
  budget is spent. So there are at most \<open>maxAttempts\<close> queries and every sleep lasts
  \<open>interval\<close>.
\<close>

theorem waitForOperation_bounded:
  "\<exists>r k. waitForOperation nd opid maxAttempts interval tr =
            (r, tr @ polling opid (default_to 2500 interval) k
                   @ (if k < default_to 50 maxAttempts then [Post (status_query opid)] else []))
     \<and> k \<le> default_to 50 maxAttempts
     \<and> (r = Inl (timed_out opid (default_to 50 maxAttempts)) \<longleftrightarrow> k = default_to 50 maxAttempts)
     \<and> posts (snd (waitForOperation nd opid maxAttempts interval tr))
          \<le> posts tr + default_to 50 maxAttempts
     \<and> sleeps (snd (waitForOperation nd opid maxAttempts interval tr))
          = sleeps tr @ replicate k (default_to 2500 interval)"
proof -
  let ?m = "default_to 50 maxAttempts" and ?iv = "default_to 2500 interval"
  have bound: "posts (snd (waitForOperation nd opid maxAttempts interval tr)) \<le> posts tr + ?m"
    unfolding waitForOperation_def by (rule wait_posts_bound)
  have nosleep: "sleeps [Post (status_query opid)] = []"
    by (simp add: sleeps_def)
  from wait_shape [of ?m nd opid ?iv tr]
  show ?thesis
  proof (elim disjE exE conjE)
    fix k
    assume "k = ?m"
      and "waitForOperation_from nd opid ?m ?iv 0 tr = (Inl (timed_out opid ?m), tr @ polling opid ?iv k)"
    then show ?thesis
      using bound
      by (intro exI [of _ "Inl (timed_out opid ?m)"] exI [of _ ?m])
         (simp add: waitForOperation_def sleeps_append sleeps_polling)
  next
    fix k r
    assume "k < ?m" and "r \<noteq> Inl (timed_out opid ?m)"
      and "waitForOperation_from nd opid ?m ?iv 0 tr = (r, tr @ polling opid ?iv k @ [Post (status_query opid)])"
    then show ?thesis
      using bound
      by (intro exI [of _ r] exI [of _ k])
         (simp add: waitForOperation_def sleeps_append sleeps_polling nosleep)
  qed
qed

text \<open>
  C7, at a concrete input: with a budget of two attempts and an operation that keeps
  executing, the run is query, sleep, query, sleep, and then the timeout error.
\<close>

theorem waitForOperation_bounded_witness:
  "waitForOperation busy_node ''opid-1'' (Some 2) (Some 10) [] =
     (Inl (Error ''Operation opid-1 timed out after 2 attempts''),
      [Post (status_query ''opid-1''), Sleep 10, Post (status_query ''opid-1''), Sleep 10])"
proof -
  have msg: "timed_out ''opid-1'' 2 = Error ''Operation opid-1 timed out after 2 attempts''"
    by (simp add: timed_out_def string_of_nat.simps digit_char_def)
  have busy: "\<forall>k < 2. running (polled busy_node ''opid-1'' (posts [] + k))"
    by (simp add: running_busy)
  obtain r k where
    eq: "waitForOperation busy_node ''opid-1'' (Some 2) (Some 10) [] =
           (r, [] @ polling ''opid-1'' 10 k @ (if k < 2 then [Post (status_query ''opid-1'')] else []))"
    and iff: "r = Inl (timed_out ''opid-1'' 2) \<longleftrightarrow> k = 2"
    using waitForOperation_bounded [of busy_node "''opid-1''" "Some 2" "Some 10" "[]"]
    by (auto simp: default_to_def)
  have "fst (waitForOperation busy_node ''opid-1'' (Some 2) (Some 10) []) = Inl (timed_out ''opid-1'' 2)"
    using wait_all_running [of 2 0 2 busy_node "''opid-1''" "[]" 10] busy
    by (simp add: waitForOperation_def default_to_def)
  then have "k = 2" and "r = Inl (timed_out ''opid-1'' 2)"
    using eq iff by simp_all
  then show ?thesis
    using eq msg by (simp add: polling_def eval_nat_numeral)
qed

text \<open>
  C10. When the node answers the status query with a list, \<^verbatim>\<open>getOperationStatus\<close>
  returns its first element, and \<^verbatim>\<open>undefined\<close> when the list is empty: it does not
  throw. The failure comes later, where the caller reads \<^verbatim>\<open>status.status\<close>:
  \<^verbatim>\<open>waitForOperation\<close> then throws the engine's \<^verbatim>\<open>TypeError\<close>.
\<close>

theorem getOperationStatus_first_or_undefined:
  assumes "nd (posts tr) (status_query opid) = Resolved reply"
    and "error reply = None"
    and "result reply = JArr xs"
  shows "fst (getOperationStatus nd opid tr) = Inr (case xs of [] \<Rightarrow> JUndefined | x # rest \<Rightarrow> x)
    \<and> (xs = [] \<longrightarrow> 0 < default_to 50 maxAttempts \<longrightarrow>
         fst (waitForOperation nd opid maxAttempts interval tr) = Inl (TypeError JUndefined ''status''))"
proof -
  have ob: "polled nd opid (posts tr) = Inr (case xs of [] \<Rightarrow> JUndefined | x # rest \<Rightarrow> x)"
    using assms by (cases xs) (simp_all add: polled_def rpc_value_simps)
  then have first: "fst (getOperationStatus nd opid tr) = Inr (case xs of [] \<Rightarrow> JUndefined | x # rest \<Rightarrow> x)"
    by (simp add: getOperationStatus_eq)
  have later: "fst (waitForOperation nd opid maxAttempts interval tr) = Inl (TypeError JUndefined ''status'')"
    if "xs = []" "0 < default_to 50 maxAttempts"
  proof -
    from that ob have un: "polled nd opid (posts tr) = Inr JUndefined" by simp
    then have "\<not> running (polled nd opid (posts tr))" by (simp add: running_def)
    then show ?thesis
      using wait_step_done [of 0 "default_to 50 maxAttempts" nd opid tr "default_to 2500 interval"] that un
      by (simp add: waitForOperation_def)
  qed
  show ?thesis using first later by simp
qed

text \<open>
  C10, at concrete inputs: a node that has forgotten the operation, and a node that
  reports it.
\<close>

theorem getOperationStatus_first_or_undefined_witness:
  "getOperationStatus forgetful_node ''opid-gone'' [] = (Inr JUndefined, [Post (status_query ''opid-gone'')])
   \<and> fst (waitForOperation forgetful_node ''opid-gone'' None None []) = Inl (TypeError JUndefined ''status'')
   \<and> fst (getOperationStatus failing_node ''opid-1'' []) = Inr (JObj [(''status'', JStr ''executing'')])"
proof -
  have a: "forgetful_node (posts []) (status_query ''opid-gone'') = Resolved \<lparr>result = JArr [], error = None\<rparr>"
    by (simp add: forgetful_node_def)
  have b: "failing_node (posts []) (status_query ''opid-1'') =
      Resolved \<lparr>result = JArr [JObj [(''status'', JStr ''executing'')]], error = None\<rparr>"
    by (simp add: failing_node_def posts_def)
  have tr: "snd (getOperationStatus forgetful_node ''opid-gone'' []) = [Post (status_query ''opid-gone'')]"
    by (simp add: getOperationStatus_eq)
  show ?thesis
    using getOperationStatus_first_or_undefined
            [of forgetful_node "[]" "''opid-gone''" "\<lparr>result = JArr [], error = None\<rparr>" "[]" None None]
          getOperationStatus_first_or_undefined
            [of failing_node "[]" "''opid-1''"
                "\<lparr>result = JArr [JObj [(''status'', JStr ''executing'')]], error = None\<rparr>"
                "[JObj [(''status'', JStr ''executing'')]]" None None]
          a b tr
    by (simp add: prod_eq_iff default_to_def)
qed

section \<open>Properties of retryWithBackoff\<close>

lemma retry_shape:
  "nat (mr + 1 - int a) = d \<Longrightarrow> int a \<le> mr \<Longrightarrow>
   \<exists>es x s'. retryWithBackoff_from fn mr bd a le s tr =
       (last_outcome (int (a + length es) = mr) x, s', tr @ backoff bd a es @ [Invoked x])
     \<and> int (a + length es) \<le> mr \<and> (\<forall>e \<in> set es. retried e)
     \<and> (\<forall>e. x = Inl (Obj e) \<longrightarrow> int (a + length es) \<noteq> mr \<longrightarrow> \<not> retried e)"
proof (induction d arbitrary: a le s tr)
  case 0
  then show ?case by simp
next
  case (Suc d)
  obtain x s1 where fn: "fn s = (x, s1)" by (cases "fn s")
  have stop: "\<exists>es x s'. retryWithBackoff_from fn mr bd a le s tr =
       (last_outcome (int (a + length es) = mr) x, s', tr @ backoff bd a es @ [Invoked x])
     \<and> int (a + length es) \<le> mr \<and> (\<forall>e \<in> set es. retried e)
     \<and> (\<forall>e. x = Inl (Obj e) \<longrightarrow> int (a + length es) \<noteq> mr \<longrightarrow> \<not> retried e)"
    if run: "retryWithBackoff_from fn mr bd a le s tr = (last_outcome (int a = mr) x, s1, tr @ [Invoked x])"
      and last: "\<And>e. x = Inl (Obj e) \<Longrightarrow> int a \<noteq> mr \<Longrightarrow> \<not> retried e"
    using run last Suc.prems(2)
    by (intro exI [of _ "[]"] exI [of _ x] exI [of _ s1]) simp
  show ?case
  proof (cases x)
    case (Inr v)
    show ?thesis
    proof (rule stop)
      show "retryWithBackoff_from fn mr bd a le s tr = (last_outcome (int a = mr) x, s1, tr @ [Invoked x])"
        using Suc.prems fn Inr
        by (subst retryWithBackoff_from.simps) (simp add: last_outcome_def)
    qed (simp add: Inr)
  next
    case (Inl t)
    show ?thesis
    proof (cases "int a = mr")
      case True
      show ?thesis
      proof (rule stop)
        show "retryWithBackoff_from fn mr bd a le s tr = (last_outcome (int a = mr) x, s1, tr @ [Invoked x])"
          using Suc.prems fn Inl True
          by (subst retryWithBackoff_from.simps) (simp add: last_outcome_def)
      qed (simp add: True)
    next
      case False
      show ?thesis
      proof (cases "\<exists>e. t = Obj e \<and> retried e")
        case no: False
        show ?thesis
        proof (rule stop)
          show "retryWithBackoff_from fn mr bd a le s tr = (last_outcome (int a = mr) x, s1, tr @ [Invoked x])"
            using Suc.prems fn Inl False no
            by (subst retryWithBackoff_from.simps)
               (cases t; auto simp: last_outcome_def code_of_def retried_def)
        qed (use no Inl in auto)
      next
        case True
        then obtain e where t: "t = Obj e" and e: "retried e" by blast
        have step: "retryWithBackoff_from fn mr bd a le s tr =
            retryWithBackoff_from fn mr bd (Suc a) t s1 (tr @ [Invoked (Inl t), Delay (times_pow2 bd a)])"
          using Suc.prems fn Inl False t e
          by (subst retryWithBackoff_from.simps) (auto simp: code_of_def retried_def)
        from False Suc.prems have d: "nat (mr + 1 - int (Suc a)) = d" and le: "int (Suc a) \<le> mr"
          by simp_all
        from Suc.IH [OF d le, of t s1 "tr @ [Invoked (Inl t), Delay (times_pow2 bd a)]"]
        obtain es y s' where
          run: "retryWithBackoff_from fn mr bd (Suc a) t s1 (tr @ [Invoked (Inl t), Delay (times_pow2 bd a)]) =
             (last_outcome (int (Suc a + length es) = mr) y, s',
              (tr @ [Invoked (Inl t), Delay (times_pow2 bd a)]) @ backoff bd (Suc a) es @ [Invoked y])"
          and len: "int (Suc a + length es) \<le> mr" and ok: "\<forall>e \<in> set es. retried e"
          and last: "\<forall>e. y = Inl (Obj e) \<longrightarrow> int (Suc a + length es) \<noteq> mr \<longrightarrow> \<not> retried e"
          by blast
        show ?thesis
          using step run len ok last e t
          by (intro exI [of _ "e # es"] exI [of _ y] exI [of _ s']) simp
      qed
    qed
  qed
qed

lemma times_pow2_exact:
  "k < 1024 \<Longrightarrow> \<bar>b * 2 ^ k\<bar> < 2 ^ 1024 \<Longrightarrow> times_pow2 (Num b) k = Num (b * 2 ^ k)"
  by (simp add: times_pow2_def)

lemma times_pow2_overflow:
  "b \<noteq> 0 \<Longrightarrow> 1024 \<le> k \<or> 2 ^ 1024 \<le> \<bar>b * 2 ^ k\<bar> \<Longrightarrow>
   times_pow2 (Num b) k = (if 0 < b then PosInfinity else NegInfinity)"
  by (auto simp: times_pow2_def)

lemma times_pow2_zero: "1024 \<le> k \<Longrightarrow> times_pow2 (Num 0) k = NaN"
  by (simp add: times_pow2_def)

lemma times_pow2_small:
  assumes "0 \<le> b" "b \<le> 2 ^ 20" "k \<le> 1000"
  shows "times_pow2 (Num b) k = Num (b * 2 ^ k)"
proof -
  have "b * 2 ^ k \<le> 2 ^ 20 * 2 ^ 1000"
    using assms by (intro mult_mono power_increasing) simp_all
  also have "\<dots> = (2::rat) ^ 1020" by (simp add: power_add [symmetric])
  also have "\<dots> < 2 ^ 1024" by (rule power_strict_increasing) simp_all
  finally have "\<bar>b * 2 ^ k\<bar> < 2 ^ 1024" using assms(1) by simp
  then show ?thesis using assms(3) by (simp add: times_pow2_def)
qed

lemma length_backoff: "length (backoff bd k es) = 2 * length es"
  by (induction es arbitrary: k) simp_all

lemma nth_backoff:
  "j < length es \<Longrightarrow>
   backoff bd k es ! (2 * j) = Invoked (Inl (Obj (es ! j)))
   \<and> backoff bd k es ! (2 * j + 1) = Delay (times_pow2 bd (k + j))"
proof (induction es arbitrary: k j)
  case Nil
  then show ?case by simp
next
  case (Cons e es)
  show ?case
  proof (cases j)
    case 0
    then show ?thesis by simp
  next
    case (Suc j')
    then have "j' < length es" using Cons.prems by simp
    from Cons.IH [OF this, of "Suc k"] show ?thesis
      using Suc by simp
  qed
qed

lemma backoff_members:
  "ev \<in> set (backoff bd k es) \<Longrightarrow> (\<exists>e \<in> set es. ev = Invoked (Inl (Obj e))) \<or> (\<exists>d. ev = Delay d)"
  by (induction es arbitrary: k) auto

lemma invocations_append: "invocations (tr @ tr') = invocations tr + invocations tr'"
  by (simp add: invocations_def)

lemma invocations_backoff: "invocations (backoff bd k es :: 'a retry_effect list) = length es"
  by (induction es arbitrary: k) (simp_all add: invocations_def)

lemma retry_negative:
  "\<not> 0 \<le> default_to 3 maxRetries \<Longrightarrow>
   retryWithBackoff fn maxRetries baseDelay s = (Inl (Rethrown Undefined), s, [])"
  unfolding retryWithBackoff_def by (subst retryWithBackoff_from.simps) simp

lemma retryWithBackoff_shape:
  assumes "0 \<le> default_to 3 maxRetries"
  shows "\<exists>es x s'. retryWithBackoff fn maxRetries baseDelay s =
            (last_outcome (int (length es) = default_to 3 maxRetries) x, s',
             backoff (default_to (Num 1000) baseDelay) 0 es @ [Invoked x])
          \<and> int (length es) \<le> default_to 3 maxRetries \<and> (\<forall>e \<in> set es. retried e)"
  using retry_shape [of "default_to 3 maxRetries" 0 _ fn "default_to (Num 1000) baseDelay" Undefined s "[]"] assms
  by (simp add: retryWithBackoff_def) blast

lemma flaky_run:
  "retryWithBackoff flaky (Some 3) None 0 =
     (Inl (Rethrown (Obj \<lparr>error_code = Some ''VALIDATION_ERROR'', error_message = ''amount_zec must be positive''\<rparr>)),
      2,
      [Invoked (Inl (Obj \<lparr>error_code = None, error_message = ''socket hang up''\<rparr>)), Delay (Num 1000),
       Invoked (Inl (Obj \<lparr>error_code = Some ''VALIDATION_ERROR'', error_message = ''amount_zec must be positive''\<rparr>))])"
  by (simp add: retryWithBackoff_def default_to_def retryWithBackoff_from.simps flaky_def code_of_def
      times_pow2_small)

lemma recovering_run:
  "retryWithBackoff recovering (Some 3) (Some (Num 500)) 0 =
     (Inr ''ok'', 3,
      [Invoked (Inl (Obj \<lparr>error_code = Some ''ECONNRESET'', error_message = ''socket hang up''\<rparr>)), Delay (Num 500),
       Invoked (Inl (Obj \<lparr>error_code = Some ''ECONNRESET'', error_message = ''socket hang up''\<rparr>)), Delay (Num 1000),
       Invoked (Inr ''ok'')])"
  by (simp add: retryWithBackoff_def default_to_def retryWithBackoff_from.simps recovering_def code_of_def
      times_pow2_small)

lemma rejecting_undefined_run:
  "retryWithBackoff rejecting_undefined (Some 3) None 0 =
     (Inl (Raised (TypeError JUndefined ''code'')), 1, [Invoked (Inl Undefined)])"
  by (simp add: retryWithBackoff_def default_to_def retryWithBackoff_from.simps rejecting_undefined_def
      code_of_def)

lemma delays_append: "delays (tr @ tr') = delays tr @ delays tr'"
  by (simp add: delays_def)

lemma delays_backoff:
  "delays (backoff bd k es :: 'a retry_effect list) = map (times_pow2 bd) [k..<k + length es]"
proof (induction es arbitrary: k)
  case Nil
  then show ?case by (simp add: delays_def)
next
  case (Cons e es)
  have "delays (backoff bd k (e # es) :: 'a retry_effect list)
          = times_pow2 bd k # delays (backoff bd (Suc k) es :: 'a retry_effect list)"
    by (simp add: delays_def)
  also have "\<dots> = map (times_pow2 bd) (k # [Suc k..<k + length (e # es)])"
    by (simp add: Cons.IH)
  also have "k # [Suc k..<k + length (e # es)] = [k..<k + length (e # es)]"
    by (rule upt_conv_Cons [symmetric]) simp
  finally show ?case .
qed

lemma stubborn_step:
  "stubborn s = (Inl (Obj \<lparr>error_code = Some ''ECONNRESET'', error_message = ''socket hang up''\<rparr>), Suc s)"
  by (simp add: stubborn_def)

lemma delays_single: "delays [Invoked x] = []"
  by (simp add: delays_def)

lemma stubborn_from:
  "nat (mr - int a) = d \<Longrightarrow> int a \<le> mr \<Longrightarrow>
   snd (snd (retryWithBackoff_from stubborn mr bd a le s tr)) =
     tr @ backoff bd a (replicate d \<lparr>error_code = Some ''ECONNRESET'', error_message = ''socket hang up''\<rparr>)
        @ [Invoked (Inl (Obj \<lparr>error_code = Some ''ECONNRESET'', error_message = ''socket hang up''\<rparr>))]"
proof (induction d arbitrary: a le s tr)
  case 0
  then have "int a = mr" by simp
  then show ?case
    by (subst retryWithBackoff_from.simps) (simp add: stubborn_step)
next
  case (Suc d)
  then have ne: "int a \<noteq> mr" and d: "nat (mr - int (Suc a)) = d" and le: "int (Suc a) \<le> mr"
    by simp_all
  let ?e = "\<lparr>error_code = Some ''ECONNRESET'', error_message = ''socket hang up''\<rparr>"
  have step: "retryWithBackoff_from stubborn mr bd a le s tr =
      retryWithBackoff_from stubborn mr bd (Suc a) (Obj ?e) (Suc s)
        (tr @ [Invoked (Inl (Obj ?e)), Delay (times_pow2 bd a)])"
    using ne Suc.prems(2)
    by (subst retryWithBackoff_from.simps) (simp add: stubborn_step code_of_def)
  show ?case
    unfolding step Suc.IH [OF d le] by simp
qed

text \<open>
  C9, the claim as stated fails. When \<^verbatim>\<open>fn\<close> rejects with \<^verbatim>\<open>undefined\<close> and
  attempts remain, the only invocation has failed, and what \<^verbatim>\<open>retryWithBackoff\<close>
  throws is the \<^verbatim>\<open>TypeError\<close> of reading \<^verbatim>\<open>error.code\<close>, not the value of the last
  invocation. And with \<open>baseDelay = 1000\<close> the delay after failed attempt 1024 is
  \<^verbatim>\<open>Infinity\<close>, not \<open>1000 * 2 ^ 1024\<close>.
\<close>

theorem retryWithBackoff_undefined_rejection_and_overflow:
  "retryWithBackoff rejecting_undefined (Some 3) None 0 =
     (Inl (Raised (TypeError JUndefined ''code'')), 1, [Invoked (Inl Undefined)])
   \<and> fst (retryWithBackoff rejecting_undefined (Some 3) None 0) \<noteq> Inl (Rethrown Undefined)
   \<and> delays (snd (snd (retryWithBackoff stubborn (Some 1025) (Some (Num 1000)) 0))) ! 1024 = PosInfinity
   \<and> PosInfinity \<noteq> Num (1000 * 2 ^ 1024)"
proof -
  let ?e = "\<lparr>error_code = Some ''ECONNRESET'', error_message = ''socket hang up''\<rparr>"
  have "snd (snd (retryWithBackoff stubborn (Some 1025) (Some (Num 1000)) 0)) =
          backoff (Num 1000) 0 (replicate 1025 ?e) @ [Invoked (Inl (Obj ?e))]"
    using stubborn_from [of 1025 0 1025 "Num 1000" Undefined 0 "[]"]
    by (simp add: retryWithBackoff_def default_to_def)
  then have "delays (snd (snd (retryWithBackoff stubborn (Some 1025) (Some (Num 1000)) 0)))
          = map (times_pow2 (Num 1000)) [0..<1025]"
    by (simp add: delays_append delays_backoff delays_single)
  then have "delays (snd (snd (retryWithBackoff stubborn (Some 1025) (Some (Num 1000)) 0))) ! 1024
          = times_pow2 (Num 1000) 1024"
    by simp
  also have "\<dots> = PosInfinity"
    by (simp add: times_pow2_def)
  finally show ?thesis
    by (simp add: rejecting_undefined_run)
qed

text \<open>
  C9, amended. For \<open>maxRetries \<ge> 0\<close>, a run of \<^verbatim>\<open>retryWithBackoff\<close> is \<open>n \<le> maxRetries\<close>
  failed attempts, each an invocation that rejects with an object followed by its timer,
  and then one last invocation with outcome \<open>x\<close>: so \<^verbatim>\<open>fn\<close> is invoked
  \<open>n + 1 \<le> maxRetries + 1\<close> times. The timer after failed attempt \<open>k\<close> (before retry
  \<open>k + 1\<close>) gets the double \<^verbatim>\<open>baseDelay * Math.pow(2, k)\<close>: exactly
  \<open>baseDelay * 2 ^ k\<close> while \<open>k < 1024\<close> and the product is below \<open>2 ^ 1024\<close> in
  absolute value, an infinity of the sign of \<open>baseDelay\<close> beyond, \<^verbatim>\<open>NaN\<close> for zero
  times \<^verbatim>\<open>Infinity\<close>. A success can only be the last invocation and its value is
  returned. When the last invocation rejects with an object, or rejects on the last
  attempt, the value it rejected with is thrown; when it rejects with \<^verbatim>\<open>undefined\<close> or
  \<^verbatim>\<open>null\<close> before the last attempt, the \<^verbatim>\<open>TypeError\<close> of reading its code is thrown.
\<close>

theorem retryWithBackoff_bounded:
  assumes "0 \<le> default_to 3 maxRetries"
    and "retryWithBackoff fn maxRetries baseDelay s = (r, s', tr)"
  shows "\<exists>n x.
     length tr = 2 * n + 1 \<and> int n \<le> default_to 3 maxRetries \<and> invocations tr = n + 1
     \<and> (\<forall>k < n. \<exists>e d. tr ! (2 * k) = Invoked (Inl (Obj e)) \<and> tr ! (2 * k + 1) = Delay d
           \<and> (\<forall>b. default_to (Num 1000) baseDelay = Num b \<longrightarrow> k < 1024 \<longrightarrow> \<bar>b * 2 ^ k\<bar> < 2 ^ 1024 \<longrightarrow>
                  d = Num (b * 2 ^ k))
           \<and> (\<forall>b. default_to (Num 1000) baseDelay = Num b \<longrightarrow> b \<noteq> 0 \<longrightarrow>
                  1024 \<le> k \<or> 2 ^ 1024 \<le> \<bar>b * 2 ^ k\<bar> \<longrightarrow>
                  d = (if 0 < b then PosInfinity else NegInfinity))
           \<and> (default_to (Num 1000) baseDelay = Num 0 \<longrightarrow> 1024 \<le> k \<longrightarrow> d = NaN))
     \<and> tr ! (2 * n) = Invoked x
     \<and> (\<forall>v. x = Inr v \<longrightarrow> r = Inr v)
     \<and> (\<forall>e. x = Inl (Obj e) \<longrightarrow> r = Inl (Rethrown (Obj e)))
     \<and> (\<forall>t. x = Inl t \<longrightarrow> int n = default_to 3 maxRetries \<longrightarrow> r = Inl (Rethrown t))
     \<and> (x = Inl Undefined \<longrightarrow> int n < default_to 3 maxRetries \<longrightarrow>
          r = Inl (Raised (TypeError JUndefined ''code'')))
     \<and> (x = Inl Null \<longrightarrow> int n < default_to 3 maxRetries \<longrightarrow>
          r = Inl (Raised (TypeError JNull ''code'')))"
proof -
  let ?mr = "default_to 3 maxRetries" and ?bd = "default_to (Num 1000) baseDelay"
  from retryWithBackoff_shape [OF assms(1), of fn baseDelay s] assms(2)
  obtain es x b where
    r: "r = last_outcome (int (length es) = ?mr) x"
    and b: "b = backoff ?bd 0 es"
    and tr: "tr = b @ [Invoked x]"
    and len: "int (length es) \<le> ?mr"
    by auto
  have lb: "length b = 2 * length es"
    using b by (simp add: length_backoff)
  have attempts: "\<exists>e d. tr ! (2 * k) = Invoked (Inl (Obj e)) \<and> tr ! (2 * k + 1) = Delay d
           \<and> (\<forall>b. ?bd = Num b \<longrightarrow> k < 1024 \<longrightarrow> \<bar>b * 2 ^ k\<bar> < 2 ^ 1024 \<longrightarrow> d = Num (b * 2 ^ k))
           \<and> (\<forall>b. ?bd = Num b \<longrightarrow> b \<noteq> 0 \<longrightarrow> 1024 \<le> k \<or> 2 ^ 1024 \<le> \<bar>b * 2 ^ k\<bar> \<longrightarrow>
                  d = (if 0 < b then PosInfinity else NegInfinity))
           \<and> (?bd = Num 0 \<longrightarrow> 1024 \<le> k \<longrightarrow> d = NaN)"
    if k: "k < length es" for k
  proof -
    from k have "2 * k < length b" and "2 * k + 1 < length b"
      using lb by simp_all
    then have "tr ! (2 * k) = b ! (2 * k)" and "tr ! (2 * k + 1) = b ! (2 * k + 1)"
      using tr by (simp_all add: nth_append)
    moreover have "b ! (2 * k) = Invoked (Inl (Obj (es ! k)))
        \<and> b ! (2 * k + 1) = Delay (times_pow2 ?bd (0 + k))"
      unfolding b by (rule nth_backoff [OF k])
    then have "b ! (2 * k) = Invoked (Inl (Obj (es ! k)))"
      and "b ! (2 * k + 1) = Delay (times_pow2 ?bd k)"
      by simp_all
    ultimately have ev: "tr ! (2 * k) = Invoked (Inl (Obj (es ! k)))"
      and dl: "tr ! (2 * k + 1) = Delay (times_pow2 ?bd k)"
      by (simp_all only:)
    show ?thesis
      using ev dl
      by (intro exI [of _ "es ! k"] exI [of _ "times_pow2 ?bd k"])
         (auto simp: times_pow2_exact times_pow2_overflow times_pow2_zero)
  qed
  have lastev: "tr ! (2 * length es) = Invoked x"
    using tr lb by (simp add: nth_append)
  have "invocations [Invoked x] = 1"
    by (simp add: invocations_def)
  then have inv: "invocations tr = length es + 1"
    unfolding tr b by (simp add: invocations_append invocations_backoff)
  show ?thesis
    using tr lb len attempts lastev inv r
    by (intro exI [of _ "length es"] exI [of _ x])
       (auto simp: last_outcome_def code_of_def)
qed

text \<open>
  C9 amended, at a concrete input: two failures, retried after 500 ms and 1000 ms, then
  success on the third of at most four invocations.
\<close>

theorem retryWithBackoff_bounded_witness:
  "retryWithBackoff recovering (Some 3) (Some (Num 500)) 0 =
     (Inr ''ok'', 3,
      [Invoked (Inl (Obj \<lparr>error_code = Some ''ECONNRESET'', error_message = ''socket hang up''\<rparr>)), Delay (Num 500),
       Invoked (Inl (Obj \<lparr>error_code = Some ''ECONNRESET'', error_message = ''socket hang up''\<rparr>)), Delay (Num 1000),
       Invoked (Inr ''ok'')])
   \<and> invocations (snd (snd (retryWithBackoff recovering (Some 3) (Some (Num 500)) 0))) = 3"
proof -
  have nonneg: "(0::int) \<le> default_to 3 (Some 3)"
    by (simp add: default_to_def)
  from retryWithBackoff_bounded [OF nonneg recovering_run]
  obtain n where "length
      [Invoked (Inl (Obj \<lparr>error_code = Some ''ECONNRESET'', error_message = ''socket hang up''\<rparr>)), Delay (Num 500),
       Invoked (Inl (Obj \<lparr>error_code = Some ''ECONNRESET'', error_message = ''socket hang up''\<rparr>)), Delay (Num 1000),
       Invoked (Inr ''ok'' :: thrown + string)] = 2 * n + 1"
    and "invocations
      [Invoked (Inl (Obj \<lparr>error_code = Some ''ECONNRESET'', error_message = ''socket hang up''\<rparr>)), Delay (Num 500),
       Invoked (Inl (Obj \<lparr>error_code = Some ''ECONNRESET'', error_message = ''socket hang up''\<rparr>)), Delay (Num 1000),
       Invoked (Inr ''ok'' :: thrown + string)] = n + 1"
    by blast
  then have "invocations
      [Invoked (Inl (Obj \<lparr>error_code = Some ''ECONNRESET'', error_message = ''socket hang up''\<rparr>)), Delay (Num 500),
       Invoked (Inl (Obj \<lparr>error_code = Some ''ECONNRESET'', error_message = ''socket hang up''\<rparr>)), Delay (Num 1000),
       Invoked (Inr ''ok'' :: thrown + string)] = 3"
    by simp
  then show ?thesis
    by (simp add: recovering_run)
qed

text \<open>
  C6. An invocation of \<^verbatim>\<open>fn\<close> that fails with the code \<^verbatim>\<open>VALIDATION_ERROR\<close>,
  \<^verbatim>\<open>NOT_FOUND\<close> or \<^verbatim>\<open>UNAUTHORIZED\<close> is the last effect of the run, with no timer and
  no invocation after it, and its error is what \<^verbatim>\<open>retryWithBackoff\<close> throws.
\<close>

theorem retryWithBackoff_never_retries_validation:
  assumes "retryWithBackoff fn maxRetries baseDelay s = (r, s', tr)"
    and "i < length tr" and "tr ! i = Invoked (Inl (Obj e))"
    and "error_code e = Some ''VALIDATION_ERROR'' \<or> error_code e = Some ''NOT_FOUND''
         \<or> error_code e = Some ''UNAUTHORIZED''"
  shows "Suc i = length tr \<and> r = Inl (Rethrown (Obj e))"
proof -
  have stop: "\<not> retried e" using assms(4) by (auto simp: retried_def)
  have nonneg: "0 \<le> default_to 3 maxRetries"
  proof (rule ccontr)
    assume "\<not> 0 \<le> default_to 3 maxRetries"
    then have "tr = []" using retry_negative [of maxRetries fn baseDelay s] assms(1) by simp
    then show False using assms(2) by simp
  qed
  from retryWithBackoff_shape [OF nonneg, of fn baseDelay s] assms(1)
  obtain es x b where
    r: "r = last_outcome (int (length es) = default_to 3 maxRetries) x"
    and b: "b = backoff (default_to (Num 1000) baseDelay) 0 es"
    and tr: "tr = b @ [Invoked x]"
    and ok: "\<forall>e \<in> set es. retried e"
    by auto
  have "\<not> i < length b"
  proof
    assume lt: "i < length b"
    then have "tr ! i \<in> set b" using tr by (simp add: nth_append)
    then have "e \<in> set es"
      using assms(3) b backoff_members [of "tr ! i" "default_to (Num 1000) baseDelay" 0 es] by auto
    then show False using ok stop by blast
  qed
  then have i: "i = length b" using assms(2) tr by simp
  then have "x = Inl (Obj e)" using assms(3) tr by simp
  then show ?thesis using i r tr by (simp add: last_outcome_def code_of_def)
qed

text \<open>
  C6, at a concrete input: the first attempt fails on the network and is retried after
  1000 ms, the second fails validation and ends the run with two attempts left.
\<close>

theorem retryWithBackoff_never_retries_validation_witness:
  "retryWithBackoff flaky (Some 3) None 0 =
     (Inl (Rethrown (Obj \<lparr>error_code = Some ''VALIDATION_ERROR'', error_message = ''amount_zec must be positive''\<rparr>)),
      2,
      [Invoked (Inl (Obj \<lparr>error_code = None, error_message = ''socket hang up''\<rparr>)), Delay (Num 1000),
       Invoked (Inl (Obj \<lparr>error_code = Some ''VALIDATION_ERROR'', error_message = ''amount_zec must be positive''\<rparr>))])
   \<and> Suc 2 = length (snd (snd (retryWithBackoff flaky (Some 3) None 0)))"
  using retryWithBackoff_never_retries_validation
          [OF flaky_run, of 2 "\<lparr>error_code = Some ''VALIDATION_ERROR'', error_message = ''amount_zec must be positive''\<rparr>"]
        flaky_run
  by simp

section \<open>Properties of the store\<close>

text \<open>
  C2. The claim: the view's \<^verbatim>\<open>available_balance_zec\<close> is the sum of the paid amounts
  of the user's paid invoices less the sum of the amounts of the user's withdrawals that
  are processing or sent, also for a user with several of each. The view joins both
  tables to \<^verbatim>\<open>users\<close> before it groups, so a user with two paid invoices and two
  sent withdrawals has four joined rows and each sum counts every amount twice: with
  invoices of 1 ZEC each and withdrawals of 0.5 ZEC each the view reports 4 ZEC received,
  2 ZEC withdrawn and 2 ZEC available, where the balance is 2 - 1 = 1 ZEC. Every row of
  this store passes the checks of its table.
\<close>

theorem user_balances_fans_out:
  "user_balances two_by_two =
     [\<lparr>id_col = ''u1'', email = Some ''creator@example.com'', name = Some ''Content Creator'',
       total_received_zec = 400000000, total_withdrawn_zec = 200000000,
       available_balance_zec = 200000000, total_invoices = 4, total_withdrawals = 4\<rparr>]
   \<and> spec_available_balance two_by_two ''u1'' = 100000000
   \<and> list_all invoices_check (invoices two_by_two)
   \<and> list_all withdrawals_check (withdrawals two_by_two)"
  by (simp add: user_balances_def user_balances_from_def left_join_def two_by_two_def paid_invoice_def
      sent_withdrawal_def group_key_def i_col_def w_col_def sql_sum_def coalesce_def sql_count_def
      spec_available_balance_def invoices_check_def withdrawals_check_def decimal_16_8_def Let_def)

lemma stored_Inr: "stored r = Inr db' \<Longrightarrow> r = Inr db'"
  by (cases r) (simp_all add: stored_def)

lemma createInvoice_keeps:
  assumes "createInvoice db userId kind amount itemRef address newId expiresAt = Inr db'"
    and "invoices_ok db"
  shows "invoices_ok db'"
proof -
  from assms(1) obtain row where "insert_invoice db row = Inr db'" and "i_status row = ''pending''"
    by (auto simp: createInvoice_def split: if_splits dest!: stored_Inr)
  then have "invoices db' = invoices db @ [row]" and "paid_in_full row"
    and "i_id row \<notin> set (map i_id (invoices db))"
    by (auto simp: insert_invoice_def paid_in_full_def split: if_splits)
  then show ?thesis using assms(2) by (simp add: invoices_ok_def)
qed

lemma map_id_update:
  assumes "\<And>i :: invoice_row. i_id (f i) = i_id i"
  shows "map i_id (map (\<lambda>i. if P i then f i else i) xs) = map i_id xs"
  by (induction xs) (simp_all add: assms)

lemma update_pending_keeps:
  assumes "update_pending_invoice db invoiceId f = Inr db'"
    and "invoices_ok db"
    and "\<And>i. i_id (f i) = i_id i"
    and "\<And>i. i \<in> set (invoices db) \<Longrightarrow> i_id i = invoiceId \<Longrightarrow> paid_in_full (f i)"
  shows "invoices_ok db'"
proof -
  let ?g = "\<lambda>i. if i_id i = invoiceId \<and> i_status i = ''pending'' then f i else i"
  from assms(1) have new: "invoices db' = map ?g (invoices db)"
    by (auto simp: update_pending_invoice_def split: if_splits)
  have "distinct (map i_id (invoices db'))"
    using assms(2) new map_id_update [of f _ "invoices db"] assms(3)
    by (simp only: invoices_ok_def)
  moreover have "list_all paid_in_full (invoices db')"
    using assms(2,4) new by (auto simp: invoices_ok_def list_all_iff)
  ultimately show ?thesis by (simp add: invoices_ok_def)
qed

lemma find_id:
  "find (\<lambda>i. i_id i = invoiceId) xs = Some invoice \<Longrightarrow> invoice \<in> set xs \<and> i_id invoice = invoiceId"
  by (induction xs) (auto split: if_splits)

lemma distinct_id_unique:
  "distinct (map i_id xs) \<Longrightarrow> a \<in> set xs \<Longrightarrow> b \<in> set xs \<Longrightarrow> i_id a = i_id b \<Longrightarrow> a = b"
  by (induction xs) (auto simp: image_iff)

lemma checkPayment_keeps:
  assumes "checkPayment db invoiceId receipts now = Inr db'"
    and "invoices_ok db"
  shows "invoices_ok db'"
proof (cases "find (\<lambda>i. i_id i = invoiceId) (invoices db)")
  case None
  then show ?thesis using assms by (simp add: checkPayment_def)
next
  case (Some invoice)
  then have invoice: "invoice \<in> set (invoices db)" "i_id invoice = invoiceId"
    using find_id by blast+
  have only: "i = invoice" if "i \<in> set (invoices db)" "i_id i = invoiceId" for i
    using distinct_id_unique [of "invoices db" i invoice] that invoice assms(2)
    by (simp add: invoices_ok_def)
  let ?f = "\<lambda>i. i\<lparr>i_status := ''paid'',
                    i_paid_amount_zec := Some (sum_list (map r_amount receipts)),
                    i_paid_txid := (case receipts of [] \<Rightarrow> None | r # rs \<Rightarrow> Some (r_txid r)),
                    i_paid_at := Some now\<rparr>"
  show ?thesis
  proof (cases "i_status invoice \<noteq> ''paid'' \<and> i_amount_zec invoice \<le> sum_list (map r_amount receipts)")
    case False
    then have "db' = db" using assms(1) Some by (auto simp: checkPayment_def split: if_splits)
    then show ?thesis using assms(2) by simp
  next
    case True
    then have upd: "update_pending_invoice db invoiceId ?f = Inr db'"
      using assms(1) Some by (auto simp: checkPayment_def dest!: stored_Inr)
    show ?thesis
    proof (rule update_pending_keeps [OF upd assms(2)])
      show "i_id (?f i) = i_id i" for i :: invoice_row by simp
      show "paid_in_full (?f i)" if "i \<in> set (invoices db)" "i_id i = invoiceId" for i
        using only [OF that] True by (simp add: paid_in_full_def)
    qed
  qed
qed

lemma expire_keeps:
  assumes "expire db invoiceId now = Inr db'" and "invoices_ok db"
  shows "invoices_ok db'"
proof -
  from assms(1) have upd: "update_pending_invoice db invoiceId (\<lambda>i. i\<lparr>i_status := ''expired''\<rparr>) = Inr db'"
    by (auto simp: expire_def split: option.splits if_splits dest!: stored_Inr)
  show ?thesis
    by (rule update_pending_keeps [OF upd assms(2)]) (simp_all add: paid_in_full_def)
qed

lemma cancel_keeps:
  assumes "cancel db invoiceId = Inr db'" and "invoices_ok db"
  shows "invoices_ok db'"
proof -
  from assms(1) have upd: "update_pending_invoice db invoiceId (\<lambda>i. i\<lparr>i_status := ''cancelled''\<rparr>) = Inr db'"
    by (auto simp: cancel_def split: option.splits if_splits dest!: stored_Inr)
  show ?thesis
    by (rule update_pending_keeps [OF upd assms(2)]) (simp_all add: paid_in_full_def)
qed

lemma after_keeps: "invoices_ok db \<Longrightarrow> invoices_ok (after db op)"
proof (cases "invoice_step db op")
  case (Inl e)
  assume "invoices_ok db"
  then show ?thesis using Inl by (simp add: after_def)
next
  case (Inr db')
  assume ok: "invoices_ok db"
  have "invoices_ok db'"
    using Inr ok
    by (cases op) (auto intro: createInvoice_keeps checkPayment_keeps expire_keeps cancel_keeps)
  then show ?thesis using Inr by (simp add: after_def)
qed

lemma run_keeps: "invoices_ok db \<Longrightarrow> invoices_ok (foldl after db ops)"
  by (induction ops arbitrary: db) (simp_all add: after_keeps)

lemma checkPayment_underpaid:
  assumes "find (\<lambda>i. i_id i = invoiceId) (invoices db) = Some invoice"
    and "sum_list (map r_amount receipts) < i_amount_zec invoice"
  shows "checkPayment db invoiceId receipts now = Inr db"
  using assms by (simp add: checkPayment_def)

text \<open>
  C4. In every state that a sequence of invoice operations reaches from a store without
  invoices, an invoice whose status is \<^verbatim>\<open>paid\<close> records a paid amount and that amount
  is at least the requested amount; and a payment check whose receipts sum to less than
  the requested amount leaves the store as it was.
\<close>

theorem paid_invoices_paid_in_full:
  assumes "invoices db0 = []"
  shows "(\<forall>i \<in> set (invoices (foldl after db0 ops)).
            i_status i = ''paid'' \<longrightarrow> (\<exists>p. i_paid_amount_zec i = Some p \<and> i_amount_zec i \<le> p))
         \<and> (\<forall>db invoiceId invoice receipts now.
              find (\<lambda>i. i_id i = invoiceId) (invoices db) = Some invoice \<longrightarrow>
              sum_list (map r_amount receipts) < i_amount_zec invoice \<longrightarrow>
              checkPayment db invoiceId receipts now = Inr db)"
proof -
  have "invoices_ok db0" using assms by (simp add: invoices_ok_def)
  then have "invoices_ok (foldl after db0 ops)" by (rule run_keeps)
  then have "\<forall>i \<in> set (invoices (foldl after db0 ops)). paid_in_full i"
    by (simp add: invoices_ok_def list_all_iff)
  then have "\<forall>i \<in> set (invoices (foldl after db0 ops)).
            i_status i = ''paid'' \<longrightarrow> (\<exists>p. i_paid_amount_zec i = Some p \<and> i_amount_zec i \<le> p)"
    by (auto simp: paid_in_full_def split: option.splits)
  then show ?thesis using checkPayment_underpaid by blast
qed

lemma pay_in_two_checks_run:
  "map (\<lambda>i. (i_status i, i_amount_zec i, i_paid_amount_zec i, i_paid_txid i))
       (invoices (foldl after one_user pay_in_two_checks))
     = [(''paid'', 150000000, Some 150000000, Some ''t1'')]
   \<and> map (\<lambda>i. (i_status i, i_paid_amount_zec i))
       (invoices (foldl after one_user (butlast pay_in_two_checks)))
     = [(''pending'', None)]"
  by (simp add: pay_in_two_checks_def one_user_def after_def createInvoice_def insert_invoice_def
      invoices_check_def decimal_16_8_def stored_def checkPayment_def update_pending_invoice_def)

text \<open>
  C4, at a concrete input: an invoice for 1.5 ZEC stays pending on a receipt of 1 ZEC and
  is paid, with 1.5 ZEC recorded, once a second receipt of 0.5 ZEC is listed.
\<close>

theorem paid_invoices_paid_in_full_witness:
  "map (\<lambda>i. (i_status i, i_amount_zec i, i_paid_amount_zec i, i_paid_txid i))
       (invoices (foldl after one_user pay_in_two_checks))
     = [(''paid'', 150000000, Some 150000000, Some ''t1'')]
   \<and> map (\<lambda>i. (i_status i, i_paid_amount_zec i))
       (invoices (foldl after one_user (butlast pay_in_two_checks)))
     = [(''pending'', None)]
   \<and> list_all (\<lambda>i. i_status i = ''paid'' \<and> (\<exists>p. i_paid_amount_zec i = Some p \<and> i_amount_zec i \<le> p))
        (invoices (foldl after one_user pay_in_two_checks))"
proof -
  have fresh: "invoices one_user = []"
    by (simp add: one_user_def)
  have paid: "\<forall>i \<in> set (invoices (foldl after one_user pay_in_two_checks)). i_status i = ''paid''"
    using pay_in_two_checks_run by auto
  have "\<forall>i \<in> set (invoices (foldl after one_user pay_in_two_checks)).
          i_status i = ''paid'' \<longrightarrow> (\<exists>p. i_paid_amount_zec i = Some p \<and> i_amount_zec i \<le> p)"
    using paid_invoices_paid_in_full [OF fresh, of pay_in_two_checks] by blast
  then show ?thesis
    using paid pay_in_two_checks_run by (simp add: list_all_iff)
qed

text \<open>
  C5, the claim as stated fails: the table \<^verbatim>\<open>withdrawals\<close> accepts a row that asks for
  2 ZEC with a fee of 0.5 ZEC and a net amount of 1 ZEC. Each of its checks reads one
  column; none compares fee and net with the amount.
\<close>

theorem withdrawals_table_accepts_unbalanced_row:
  "insert_withdrawal one_user unbalanced_row = Inr (one_user\<lparr>withdrawals := [unbalanced_row]\<rparr>)
   \<and> w_fee_zec unbalanced_row + w_net_zec unbalanced_row \<noteq> w_amount_zec unbalanced_row"
  by (simp add: insert_withdrawal_def withdrawals_check_def decimal_16_8_def one_user_def
      unbalanced_row_def)

text \<open>
  C5, amended. Every row the table \<^verbatim>\<open>withdrawals\<close> accepts has a positive amount, a
  fee that is not negative and a positive net amount. The row that
  \<^verbatim>\<open>createWithdrawal\<close> stores carries the requested amount and satisfies
  \<open>fee + net = amount\<close>, with the same signs: the equation comes from the operation, which
  computes the net amount as the amount less the fee, and not from a constraint of the
  table.
\<close>

theorem withdrawal_rows_signs_and_creation:
  "(insert_withdrawal db w = Inr db' \<longrightarrow>
      0 < w_amount_zec w \<and> 0 \<le> w_fee_zec w \<and> 0 < w_net_zec w)
   \<and> (createWithdrawal estimateFee wellFormed db userId destination amount newId = Inr db'' \<longrightarrow>
        (\<exists>row. withdrawals db'' = withdrawals db @ [row]
           \<and> w_amount_zec row = amount
           \<and> w_fee_zec row + w_net_zec row = w_amount_zec row
           \<and> 0 \<le> w_fee_zec row \<and> 0 < w_net_zec row))"
proof (rule conjI; rule impI)
  assume "insert_withdrawal db w = Inr db'"
  then show "0 < w_amount_zec w \<and> 0 \<le> w_fee_zec w \<and> 0 < w_net_zec w"
    by (auto simp: insert_withdrawal_def withdrawals_check_def split: if_splits)
next
  let ?row = "\<lparr>w_id = newId, w_user_id = userId, w_amount_zec = amount,
              w_fee_zec = estimateFee amount, w_net_zec = amount - estimateFee amount,
              w_to_address = destination, w_status = ''pending'', w_txid = None,
              w_processed_at = None\<rparr>"
  assume "createWithdrawal estimateFee wellFormed db userId destination amount newId = Inr db''"
  then have ins: "insert_withdrawal db ?row = Inr db''"
    by (auto simp: createWithdrawal_def split: if_splits dest!: stored_Inr)
  then have "withdrawals db'' = withdrawals db @ [?row]" and "withdrawals_check ?row"
    by (auto simp: insert_withdrawal_def split: if_splits)
  then show "\<exists>row. withdrawals db'' = withdrawals db @ [row]
           \<and> w_amount_zec row = amount
           \<and> w_fee_zec row + w_net_zec row = w_amount_zec row
           \<and> 0 \<le> w_fee_zec row \<and> 0 < w_net_zec row"
    by (intro exI [of _ ?row]) (simp add: withdrawals_check_def)
qed

text \<open>
  C5 amended, at a concrete input: with a fee of one percent a withdrawal of 2 ZEC
  against a balance of 3 ZEC is stored with fee 0.02 ZEC and net 1.98 ZEC; against an
  empty balance it is refused.
\<close>

theorem withdrawal_rows_signs_and_creation_witness:
  "map (\<lambda>w. (w_amount_zec w, w_fee_zec w, w_net_zec w, w_status w))
     (case createWithdrawal one_percent True funded_user ''u1'' ''zs1dest'' 200000000 ''w1'' of
        Inl e \<Rightarrow> [] | Inr db \<Rightarrow> withdrawals db)
     = [(200000000, 2000000, 198000000, ''pending'')]
   \<and> createWithdrawal one_percent True one_user ''u1'' ''zs1dest'' 200000000 ''w1'' = Inl InsufficientBalance"
proof -
  let ?row = "\<lparr>w_id = ''w1'', w_user_id = ''u1'', w_amount_zec = 200000000,
              w_fee_zec = 2000000, w_net_zec = 198000000,
              w_to_address = ''zs1dest'', w_status = ''pending'', w_txid = None,
              w_processed_at = None\<rparr>"
  have run: "createWithdrawal one_percent True funded_user ''u1'' ''zs1dest'' 200000000 ''w1''
               = Inr (funded_user\<lparr>withdrawals := [?row]\<rparr>)"
    by (simp add: createWithdrawal_def spec_available_balance_def funded_user_def one_user_def
        paid_invoice_def coalesce_def one_percent_def stored_def insert_withdrawal_def
        withdrawals_check_def decimal_16_8_def)
  have poor: "createWithdrawal one_percent True one_user ''u1'' ''zs1dest'' 200000000 ''w1'' = Inl InsufficientBalance"
    by (simp add: createWithdrawal_def spec_available_balance_def one_user_def)
  from withdrawal_rows_signs_and_creation
         [where estimateFee = one_percent and wellFormed = True and db = funded_user
            and userId = "''u1''" and destination = "''zs1dest''" and amount = 200000000
            and newId = "''w1''" and db'' = "funded_user\<lparr>withdrawals := [?row]\<rparr>"] run
  obtain row where "withdrawals (funded_user\<lparr>withdrawals := [?row]\<rparr>) = withdrawals funded_user @ [row]"
    and balanced: "w_fee_zec row + w_net_zec row = w_amount_zec row"
    by blast
  then have "row = ?row"
    by (simp add: funded_user_def one_user_def)
  then have "w_fee_zec ?row + w_net_zec ?row = w_amount_zec ?row"
    using balanced by (simp only:)
  then show ?thesis using run poor by simp
qed

end
